theory Spec2Isabelle
  imports Main "HOL-Library.Word" "HOL-Library.Signed_Division"
begin

unbundle bit_operations_syntax

section \<open>The polygon model interpreter of similar/3d/interp.cpp\<close>

text \<open>
  The interpreter walks a byte buffer of variable-length records. A pointer
  \<^verbatim>\<open>const uint8_t *p\<close> into the buffer is an \<^typ>\<open>int\<close> offset from the start of
  the buffer (offsets read from the data are signed, so it can leave the buffer on either
  side). C++ gives no meaning to an access outside the buffer; the embedding makes every
  such access the outcome \<open>OutOfBounds\<close>, so that it can be told apart from the
  exception the interpreter throws itself.
\<close>

subsection \<open>Outcomes\<close>

datatype error =
    MalformedModel  \<comment> \<open>\<^verbatim>\<open>throw std::runtime_error("invalid polygon model")\<close>\<close>
  | OutOfBounds     \<comment> \<open>an access outside the buffer or outside an array: undefined in C++\<close>
  | AssertFailed    \<comment> \<open>an \<^verbatim>\<open>Assert\<close> that fails in a build without NDEBUG\<close>
  | OutOfFuel       \<comment> \<open>the fuel of the embedding ran out: the C++ is still running\<close>

text \<open>
  A member function that can fail and that changes its object returns the outcome and the
  object as it is then: what was written before a \<^verbatim>\<open>throw\<close> stays written.
\<close>

type_synonym ('a, 's) result = "(error + 'a) \<times> 's"

definition returning :: "'b \<Rightarrow> ('a, 's) result \<Rightarrow> ('b, 's) result" where
  "returning v r = (case r of (Inl e, s) \<Rightarrow> (Inl e, s) | (Inr _, s) \<Rightarrow> (Inr v, s))"

subsection \<open>Build configuration\<close>

text \<open>
  The preprocessor symbols the file tests, and the two constants it takes from headers
  that are not part of the sources at hand (\<^verbatim>\<open>MAX_POINTS_PER_POLY\<close> of 3d.h and
  \<^verbatim>\<open>MAX_CHUNKS\<close> of polyobj.h), as parameters.
\<close>

record config =
  words_bigendian :: bool      \<comment> \<open>\<^verbatim>\<open>DXX_WORDS_BIGENDIAN\<close>\<close>
  build_descent_i :: bool      \<comment> \<open>\<^verbatim>\<open>DXX_BUILD_DESCENT_I\<close>, otherwise \<^verbatim>\<open>DXX_BUILD_DESCENT_II\<close>\<close>
  ndebug :: bool               \<comment> \<open>\<^verbatim>\<open>NDEBUG\<close>: \<^verbatim>\<open>Assert\<close> expands to nothing\<close>
  max_points_per_poly :: nat   \<comment> \<open>\<^verbatim>\<open>MAX_POINTS_PER_POLY\<close>\<close>
  max_chunks :: nat            \<comment> \<open>\<^verbatim>\<open>MAX_CHUNKS\<close>\<close>

subsection \<open>The buffer\<close>

type_synonym mem = "8 word list"
type_synonym fix_t = "32 word"

definition in_buffer :: "mem \<Rightarrow> int \<Rightarrow> nat \<Rightarrow> bool" where
  "in_buffer m p k \<longleftrightarrow> 0 \<le> p \<and> p + int k \<le> int (length m)"

definition byte_at :: "mem \<Rightarrow> int \<Rightarrow> 8 word" where
  "byte_at m p = m ! nat p"

definition short_of :: "8 word \<Rightarrow> 8 word \<Rightarrow> 16 word" where
  "short_of hi lo = push_bit 8 (ucast hi) OR ucast lo"

definition int_of :: "8 word \<Rightarrow> 8 word \<Rightarrow> 8 word \<Rightarrow> 8 word \<Rightarrow> 32 word" where
  "int_of b3 b2 b1 b0 =
     push_bit 24 (ucast b3) OR push_bit 16 (ucast b2) OR push_bit 8 (ucast b1) OR ucast b0"

text \<open>\<^verbatim>\<open>w(p)\<close>: the \<^verbatim>\<open>int16_t\<close> at \<open>p\<close>, in the byte order of the machine.\<close>

definition w :: "bool \<Rightarrow> mem \<Rightarrow> int \<Rightarrow> 16 word option" where
  "w be m p =
     (if in_buffer m p 2
      then Some (if be then short_of (byte_at m p) (byte_at m (p + 1))
                 else short_of (byte_at m (p + 1)) (byte_at m p))
      else None)"

text \<open>\<^verbatim>\<open>*fp(p)\<close>: the \<^verbatim>\<open>fix\<close> (32 bits) at \<open>p\<close>.\<close>

definition fp :: "bool \<Rightarrow> mem \<Rightarrow> int \<Rightarrow> fix_t option" where
  "fp be m p =
     (if in_buffer m p 4
      then Some (if be
                 then int_of (byte_at m p) (byte_at m (p + 1)) (byte_at m (p + 2)) (byte_at m (p + 3))
                 else int_of (byte_at m (p + 3)) (byte_at m (p + 2)) (byte_at m (p + 1)) (byte_at m p))
      else None)"

text \<open>\<^verbatim>\<open>*vp(p)\<close>: a \<^verbatim>\<open>vms_vector\<close>, three \<^verbatim>\<open>fix\<close> of four bytes each.\<close>

type_synonym vms_vector = "fix_t \<times> fix_t \<times> fix_t"

definition sizeof_vms_vector :: nat where
  "sizeof_vms_vector = 12"

definition vp :: "bool \<Rightarrow> mem \<Rightarrow> int \<Rightarrow> vms_vector option" where
  "vp be m p =
     (case (fp be m p, fp be m (p + 4), fp be m (p + 8)) of
        (Some x, Some y, Some z) \<Rightarrow> Some (x, y, z)
      | _ \<Rightarrow> None)"

text \<open>Stores through \<^verbatim>\<open>*wp(p) = v\<close> and \<^verbatim>\<open>*fp(p) = v\<close>.\<close>

definition set_w :: "bool \<Rightarrow> mem \<Rightarrow> int \<Rightarrow> 16 word \<Rightarrow> mem option" where
  "set_w be m p v =
     (if in_buffer m p 2
      then Some (if be then m[nat p := ucast (drop_bit 8 v), nat (p + 1) := ucast v]
                 else m[nat p := ucast v, nat (p + 1) := ucast (drop_bit 8 v)])
      else None)"


text \<open>
  Modelled from the spec: the byte-order macros of byteutil.h, which is not among the
  sources. \<^verbatim>\<open>SWAPSHORT\<close> and \<^verbatim>\<open>SWAPINT\<close> reverse the bytes of a 16-bit and of a
  32-bit value ("swapping multi-byte fields for foreign byte order"); \<^verbatim>\<open>INTEL_SHORT\<close>
  is \<^verbatim>\<open>SWAPSHORT\<close> on a big-endian machine and the identity on a little-endian one;
  \<^verbatim>\<open>GET_INTEL_SHORT\<close> reads two bytes as a little-endian value.
\<close>

definition SWAPSHORT :: "16 word \<Rightarrow> 16 word" where
  "SWAPSHORT x = push_bit 8 x OR drop_bit 8 x"


definition INTEL_SHORT :: "bool \<Rightarrow> 16 word \<Rightarrow> 16 word" where
  "INTEL_SHORT be x = (if be then SWAPSHORT x else x)"

definition GET_INTEL_SHORT :: "mem \<Rightarrow> int \<Rightarrow> 16 word option" where
  "GET_INTEL_SHORT m p = w False m p"

subsection \<open>Opcodes\<close>

definition OP_EOF :: "32 word" where "OP_EOF = 0"
definition OP_DEFPOINTS :: "32 word" where "OP_DEFPOINTS = 1"
definition OP_FLATPOLY :: "32 word" where "OP_FLATPOLY = 2"
definition OP_TMAPPOLY :: "32 word" where "OP_TMAPPOLY = 3"
definition OP_SORTNORM :: "32 word" where "OP_SORTNORM = 4"
definition OP_RODBM :: "32 word" where "OP_RODBM = 5"
definition OP_SUBCALL :: "32 word" where "OP_SUBCALL = 6"
definition OP_DEFP_START :: "32 word" where "OP_DEFP_START = 7"
definition OP_GLOW :: "32 word" where "OP_GLOW = 8"

subsection \<open>The State parameter of the templates\<close>

text \<open>
  \<^verbatim>\<open>dispatch_polymodel_op\<close> and \<^verbatim>\<open>iterate_polymodel\<close> are templates over a class
  \<^verbatim>\<open>State\<close>; they use the member functions below. An object of the class is a value
  of type \<open>'s\<close>, handed through the calls. The opcode is an \<^verbatim>\<open>uint_fast32_t\<close> (at
  least 32 bits; only its equality with the nine constants is used), a vertex count an
  \<^verbatim>\<open>uint16_t\<close> that the member functions receive widened.
\<close>

record 's interpreter =
  get_raw_opcode :: "int \<Rightarrow> 's \<Rightarrow> error + 16 word"
  translate_opcode :: "int \<Rightarrow> 16 word \<Rightarrow> 's \<Rightarrow> (32 word, 's) result"
  get_op_subcount :: "int \<Rightarrow> 's \<Rightarrow> error + 16 word"
  op_defpoints :: "int \<Rightarrow> nat \<Rightarrow> 's \<Rightarrow> (unit, 's) result"
  op_defp_start :: "int \<Rightarrow> nat \<Rightarrow> 's \<Rightarrow> (unit, 's) result"
  op_flatpoly :: "int \<Rightarrow> nat \<Rightarrow> 's \<Rightarrow> (unit, 's) result"
  op_tmappoly :: "int \<Rightarrow> nat \<Rightarrow> 's \<Rightarrow> (unit, 's) result"
  op_sortnorm :: "int \<Rightarrow> 's \<Rightarrow> (unit, 's) result"
  op_rodbm :: "int \<Rightarrow> 's \<Rightarrow> (unit, 's) result"
  op_subcall :: "int \<Rightarrow> 's \<Rightarrow> (unit, 's) result"
  op_glow :: "int \<Rightarrow> 's \<Rightarrow> (unit, 's) result"
  op_default :: "'s \<Rightarrow> (unit, 's) result"

text \<open>The \<^verbatim>\<open>interpreter_ignore_op_*\<close> classes: member functions that do nothing.\<close>

definition ignore_op_n :: "int \<Rightarrow> nat \<Rightarrow> 's \<Rightarrow> (unit, 's) result" where
  "ignore_op_n p n s = (Inr (), s)"

definition ignore_op :: "int \<Rightarrow> 's \<Rightarrow> (unit, 's) result" where
  "ignore_op p s = (Inr (), s)"

text \<open>\<^verbatim>\<open>interpreter_base\<close>, for a state that reads the buffer \<open>m\<close> and leaves it as it is.\<close>

definition read_short :: "bool \<Rightarrow> mem \<Rightarrow> int \<Rightarrow> error + 16 word" where
  "read_short be m p = (case w be m p of None \<Rightarrow> Inl OutOfBounds | Some v \<Rightarrow> Inr v)"

definition base_get_raw_opcode :: "bool \<Rightarrow> mem \<Rightarrow> int \<Rightarrow> 's \<Rightarrow> error + 16 word" where
  "base_get_raw_opcode be m p s = read_short be m p"

definition base_translate_opcode :: "int \<Rightarrow> 16 word \<Rightarrow> 's \<Rightarrow> (32 word, 's) result" where
  "base_translate_opcode p op s = (Inr (ucast op), s)"

definition base_get_op_subcount :: "bool \<Rightarrow> mem \<Rightarrow> int \<Rightarrow> 's \<Rightarrow> error + 16 word" where
  "base_get_op_subcount be m p s = read_short be m (p + 2)"

definition base_op_default :: "'s \<Rightarrow> (unit, 's) result" where
  "base_op_default s = (Inl MalformedModel, s)"

subsection \<open>dispatch_polymodel_op and iterate_polymodel\<close>

text \<open>
  The record size is computed from the vertex count before the member function runs and
  returned after it; a member function that throws leaves no size. The sizes are
  \<^verbatim>\<open>std::size_t\<close> values far below its range (a count is below 65536), hence
  \<^typ>\<open>nat\<close>. \<^verbatim>\<open>n & ~1\<close> clears the lowest bit of the count.
\<close>

definition dispatch_polymodel_op ::
  "'s interpreter \<Rightarrow> int \<Rightarrow> 's \<Rightarrow> 32 word \<Rightarrow> (nat, 's) result" where
  "dispatch_polymodel_op st p s op =
     (if op = OP_DEFPOINTS then
        (case get_op_subcount st p s of Inl e \<Rightarrow> (Inl e, s) | Inr n \<Rightarrow>
           returning (unat n * sizeof_vms_vector + 4) (op_defpoints st p (unat n) s))
      else if op = OP_DEFP_START then
        (case get_op_subcount st p s of Inl e \<Rightarrow> (Inl e, s) | Inr n \<Rightarrow>
           returning (unat n * sizeof_vms_vector + 8) (op_defp_start st p (unat n) s))
      else if op = OP_FLATPOLY then
        (case get_op_subcount st p s of Inl e \<Rightarrow> (Inl e, s) | Inr n \<Rightarrow>
           returning (30 + (unat (n AND NOT 1) + 1) * 2) (op_flatpoly st p (unat n) s))
      else if op = OP_TMAPPOLY then
        (case get_op_subcount st p s of Inl e \<Rightarrow> (Inl e, s) | Inr n \<Rightarrow>
           returning (30 + (unat (n AND NOT 1) + 1) * 2 + unat n * 12) (op_tmappoly st p (unat n) s))
      else if op = OP_SORTNORM then returning 32 (op_sortnorm st p s)
      else if op = OP_RODBM then returning 36 (op_rodbm st p s)
      else if op = OP_SUBCALL then returning 20 (op_subcall st p s)
      else if op = OP_GLOW then returning 4 (op_glow st p s)
      else returning 2 (op_default st s))"

text \<open>
  The loop of \<^verbatim>\<open>iterate_polymodel\<close>, one unit of fuel for each time the condition is
  evaluated. It returns the position of the opcode \<^verbatim>\<open>OP_EOF\<close> that ended it.
\<close>

primrec iterate_polymodel :: "nat \<Rightarrow> 's interpreter \<Rightarrow> int \<Rightarrow> 's \<Rightarrow> (int, 's) result" where
  "iterate_polymodel 0 st p s = (Inl OutOfFuel, s)"
| "iterate_polymodel (Suc k) st p s =
     (case get_raw_opcode st p s of
        Inl e \<Rightarrow> (Inl e, s)
      | Inr op \<Rightarrow>
          if ucast op = OP_EOF then (Inr p, s)
          else (case translate_opcode st p op s of
                  (Inl e, s1) \<Rightarrow> (Inl e, s1)
                | (Inr opc, s1) \<Rightarrow>
                    (case dispatch_polymodel_op st p s1 opc of
                       (Inl e, s2) \<Rightarrow> (Inl e, s2)
                     | (Inr record_size, s2) \<Rightarrow> iterate_polymodel k st (p + int record_size) s2)))"

subsection \<open>External collaborators\<close>

text \<open>
  The 3D library and the palette, which the interpreter calls and does not define, as
  parameters. \<open>'g\<close> is the state of the library's globals (the view and the stack of
  instances), \<open>'pt\<close> a rotated point (\<^verbatim>\<open>g3s_point\<close>). \<^verbatim>\<open>g3_check_normal_facing\<close> is
  used through \<^verbatim>\<open>> 0\<close> only; \<open>view_fvec_dot g v\<close> is
  \<^verbatim>\<open>vm_vec_dot(View_matrix.fvec, v)\<close>.
\<close>

type_synonym vms_angvec = "16 word \<times> 16 word \<times> 16 word"

record ('g, 'pt) g3_lib =
  g3_check_normal_facing :: "'g \<Rightarrow> vms_vector \<Rightarrow> vms_vector \<Rightarrow> int"
  gr_find_closest_color_15bpp :: "int \<Rightarrow> int"
  g3_rotate_point :: "'g \<Rightarrow> vms_vector \<Rightarrow> 'pt"
  g3_start_instance_angles :: "vms_vector \<Rightarrow> vms_angvec \<Rightarrow> 'g \<Rightarrow> 'g"
  g3_done_instance :: "'g \<Rightarrow> 'g"
  view_fvec_dot :: "'g \<Rightarrow> vms_vector \<Rightarrow> fix_t"
  fixmul :: "fix_t \<Rightarrow> fix_t \<Rightarrow> fix_t"

subsection \<open>get_chunks: the cross-references of a model\<close>

record chunk =
  old_base :: int
  new_base :: int
  offset :: int
  correction :: int

text \<open>
  \<^verbatim>\<open>chunk_list\<close> with its fill count \<^verbatim>\<open>*no_chunks\<close> is the list of the chunks stored
  so far; the caller's array holds \<^verbatim>\<open>MAX_CHUNKS\<close> chunks.
\<close>

definition add_chunk :: "config \<Rightarrow> int \<Rightarrow> int \<Rightarrow> int \<Rightarrow> chunk list \<Rightarrow> (unit, chunk list) result" where
  "add_chunk cfg old new off chunk_list =
     (if \<not> ndebug cfg \<and> \<not> length chunk_list + 1 < max_chunks cfg then (Inl AssertFailed, chunk_list)
      else if \<not> length chunk_list < max_chunks cfg then (Inl OutOfBounds, chunk_list)
      else (Inr (), chunk_list @ [\<lparr>old_base = old, new_base = new, offset = off, correction = 0\<rparr>]))"

definition get_chunks_state :: "config \<Rightarrow> mem \<Rightarrow> int \<Rightarrow> int \<Rightarrow> chunk list interpreter" where
  "get_chunks_state cfg m data new_data =
     \<lparr>get_raw_opcode = base_get_raw_opcode (words_bigendian cfg) m,
      translate_opcode = (\<lambda>p op s. (Inr (ucast (INTEL_SHORT (words_bigendian cfg) op)), s)),
      get_op_subcount = (\<lambda>p s. case GET_INTEL_SHORT m (p + 2) of
                                   None \<Rightarrow> Inl OutOfBounds | Some n \<Rightarrow> Inr n),
      op_defpoints = ignore_op_n,
      op_defp_start = ignore_op_n,
      op_flatpoly = ignore_op_n,
      op_tmappoly = ignore_op_n,
      op_sortnorm = (\<lambda>p s.
        case add_chunk cfg p (p - data + new_data) 28 s of
          (Inl e, s1) \<Rightarrow> (Inl e, s1)
        | (Inr _, s1) \<Rightarrow> add_chunk cfg p (p - data + new_data) 30 s1),
      op_rodbm = ignore_op,
      op_subcall = (\<lambda>p s. add_chunk cfg p (p - data + new_data) 16 s),
      op_glow = ignore_op,
      op_default = base_op_default\<rparr>"

definition get_chunks :: "nat \<Rightarrow> config \<Rightarrow> mem \<Rightarrow> int \<Rightarrow> int \<Rightarrow> chunk list \<Rightarrow> (int, chunk list) result" where
  "get_chunks fuel cfg m data new_data chunk_list =
     (case iterate_polymodel fuel (get_chunks_state cfg m data new_data) data chunk_list of
        (Inl e, s) \<Rightarrow> (Inl e, s)
      | (Inr p, s) \<Rightarrow> (Inr (p + 2 - data), s))"

subsection \<open>g3_poly_get_color: the colour of a model\<close>

text \<open>The state object holds \<^verbatim>\<open>int color\<close>; a nested call works on an object of its own.\<close>

definition get_color_op_flatpoly ::
  "config \<Rightarrow> ('g, 'pt) g3_lib \<Rightarrow> 'g \<Rightarrow> mem \<Rightarrow> int \<Rightarrow> nat \<Rightarrow> int \<Rightarrow> (unit, int) result" where
  "get_color_op_flatpoly cfg lib g m p nv color =
     (if nv > max_points_per_poly cfg then (Inr (), color)
      else case (vp (words_bigendian cfg) m (p + 4), vp (words_bigendian cfg) m (p + 16)) of
        (Some v, Some norm) \<Rightarrow>
          if g3_check_normal_facing lib g v norm > 0 then
            (case w (words_bigendian cfg) m (p + 28) of
               None \<Rightarrow> (Inl OutOfBounds, color)
             | Some c \<Rightarrow>
                 (Inr (), if build_descent_i cfg then sint c
                          else gr_find_closest_color_15bpp lib (sint c)))
          else (Inr (), color)
      | _ \<Rightarrow> (Inl OutOfBounds, color))"

definition get_color_op_sortnorm ::
  "config \<Rightarrow> ('g, 'pt) g3_lib \<Rightarrow> 'g \<Rightarrow> mem \<Rightarrow> (int \<Rightarrow> error + int) \<Rightarrow> int \<Rightarrow> int \<Rightarrow> (unit, int) result" where
  "get_color_op_sortnorm cfg lib g m nested p color =
     (case (vp (words_bigendian cfg) m (p + 16), vp (words_bigendian cfg) m (p + 4)) of
        (Some v, Some norm) \<Rightarrow>
          (case w (words_bigendian cfg) m (if g3_check_normal_facing lib g v norm > 0 then p + 28 else p + 30) of
             None \<Rightarrow> (Inl OutOfBounds, color)
           | Some off \<Rightarrow>
               (case nested (p + sint off) of
                  Inl e \<Rightarrow> (Inl e, color)
                | Inr c \<Rightarrow> (Inr (), c)))
      | _ \<Rightarrow> (Inl OutOfBounds, color))"

definition get_color_op_subcall ::
  "config \<Rightarrow> mem \<Rightarrow> (int \<Rightarrow> error + int) \<Rightarrow> int \<Rightarrow> int \<Rightarrow> (unit, int) result" where
  "get_color_op_subcall cfg m nested p color =
     (if build_descent_i cfg then
        (case w (words_bigendian cfg) m (p + 16) of
           None \<Rightarrow> (Inl OutOfBounds, color)
         | Some off \<Rightarrow>
             (case nested (p + sint off) of
                Inl e \<Rightarrow> (Inl e, color)
              | Inr c \<Rightarrow> (Inr (), c)))
      else (Inr (), color))"

definition g3_poly_get_color_state ::
  "config \<Rightarrow> ('g, 'pt) g3_lib \<Rightarrow> 'g \<Rightarrow> mem \<Rightarrow> (int \<Rightarrow> error + int) \<Rightarrow> int interpreter" where
  "g3_poly_get_color_state cfg lib g m nested =
     \<lparr>get_raw_opcode = base_get_raw_opcode (words_bigendian cfg) m,
      translate_opcode = base_translate_opcode,
      get_op_subcount = base_get_op_subcount (words_bigendian cfg) m,
      op_defpoints = ignore_op_n,
      op_defp_start = ignore_op_n,
      op_flatpoly = get_color_op_flatpoly cfg lib g m,
      op_tmappoly = ignore_op_n,
      op_sortnorm = get_color_op_sortnorm cfg lib g m nested,
      op_rodbm = ignore_op,
      op_subcall = get_color_op_subcall cfg m nested,
      op_glow = ignore_op,
      op_default = base_op_default\<rparr>"

text \<open>
  The fuel bounds the loop of a call and, one less at each level, the depth of the
  nested calls.
\<close>

primrec g3_poly_get_color ::
  "nat \<Rightarrow> config \<Rightarrow> ('g, 'pt) g3_lib \<Rightarrow> 'g \<Rightarrow> mem \<Rightarrow> int \<Rightarrow> error + int" where
  "g3_poly_get_color 0 cfg lib g m p = Inl OutOfFuel"
| "g3_poly_get_color (Suc k) cfg lib g m p =
     (case iterate_polymodel (Suc k)
             (g3_poly_get_color_state cfg lib g m (g3_poly_get_color k cfg lib g m)) p 0 of
        (Inl e, color) \<Rightarrow> Inl e
      | (Inr _, color) \<Rightarrow> Inr color)"

subsection \<open>g3_init_polygon_model: the highest texture number\<close>

text \<open>
  The state object holds \<^verbatim>\<open>highest_texture_num\<close>. The Descent 1 build writes colours
  into the buffer, and the build without NDEBUG counts the calls in the static
  \<^verbatim>\<open>nest_count\<close>; both are carried along with the object and handed back by a nested
  call. \<^verbatim>\<open>Assert(c)\<close> is nothing with NDEBUG and stops the program otherwise.
\<close>

record init_state =
  highest_texture_num :: "16 word"
  model_data :: mem
  nest_count :: int

definition Assert :: "config \<Rightarrow> bool \<Rightarrow> bool" where
  "Assert cfg c \<longleftrightarrow> ndebug cfg \<or> c"

definition init_op_flatpoly ::
  "config \<Rightarrow> ('g, 'pt) g3_lib \<Rightarrow> int \<Rightarrow> nat \<Rightarrow> init_state \<Rightarrow> (unit, init_state) result" where
  "init_op_flatpoly cfg lib p nv s =
     (if \<not> Assert cfg (nv > 2) then (Inl AssertFailed, s)
      else if build_descent_i cfg then
        (case w (words_bigendian cfg) (model_data s) (p + 28) of
           None \<Rightarrow> (Inl OutOfBounds, s)
         | Some c \<Rightarrow>
             (case set_w (words_bigendian cfg) (model_data s) (p + 28)
                     (word_of_int (gr_find_closest_color_15bpp lib (sint c))) of
                None \<Rightarrow> (Inl OutOfBounds, s)
              | Some m' \<Rightarrow> (Inr (), s\<lparr>model_data := m'\<rparr>)))
      else (Inr (), s))"

definition init_op_tmappoly ::
  "config \<Rightarrow> int \<Rightarrow> nat \<Rightarrow> init_state \<Rightarrow> (unit, init_state) result" where
  "init_op_tmappoly cfg p nv s =
     (if \<not> Assert cfg (nv > 2) then (Inl AssertFailed, s)
      else case w (words_bigendian cfg) (model_data s) (p + 28) of
        None \<Rightarrow> (Inl OutOfBounds, s)
      | Some t \<Rightarrow>
          (Inr (), if sint t > sint (highest_texture_num s)
                   then s\<lparr>highest_texture_num := t\<rparr> else s))"

type_synonym init_sub = "int \<Rightarrow> 16 word \<Rightarrow> mem \<times> int \<Rightarrow> (16 word, mem \<times> int) result"

definition init_call :: "init_sub \<Rightarrow> int \<Rightarrow> 16 word \<Rightarrow> init_state \<Rightarrow> (16 word, init_state) result" where
  "init_call nested p h s =
     (case nested p h (model_data s, nest_count s) of
        (r, (m', n')) \<Rightarrow> (r, s\<lparr>model_data := m', nest_count := n'\<rparr>))"

definition init_op_sortnorm :: "config \<Rightarrow> init_sub \<Rightarrow> int \<Rightarrow> init_state \<Rightarrow> (unit, init_state) result" where
  "init_op_sortnorm cfg nested p s =
     (case w (words_bigendian cfg) (model_data s) (p + 28) of
        None \<Rightarrow> (Inl OutOfBounds, s)
      | Some off1 \<Rightarrow>
          (case init_call nested (p + sint off1) (highest_texture_num s) s of
             (Inl e, s1) \<Rightarrow> (Inl e, s1)
           | (Inr h, s1) \<Rightarrow>
               (case w (words_bigendian cfg) (model_data s1) (p + 30) of
                  None \<Rightarrow> (Inl OutOfBounds, s1)
                | Some off2 \<Rightarrow>
                    (case init_call nested (p + sint off2) h s1 of
                       (Inl e, s2) \<Rightarrow> (Inl e, s2)
                     | (Inr h2, s2) \<Rightarrow> (Inr (), s2\<lparr>highest_texture_num := h2\<rparr>)))))"

definition init_op_subcall :: "config \<Rightarrow> init_sub \<Rightarrow> int \<Rightarrow> init_state \<Rightarrow> (unit, init_state) result" where
  "init_op_subcall cfg nested p s =
     (case w (words_bigendian cfg) (model_data s) (p + 16) of
        None \<Rightarrow> (Inl OutOfBounds, s)
      | Some off \<Rightarrow>
          (case init_call nested (p + sint off) (highest_texture_num s) s of
             (Inl e, s1) \<Rightarrow> (Inl e, s1)
           | (Inr h, s1) \<Rightarrow> (Inr (), s1\<lparr>highest_texture_num := h\<rparr>)))"

definition init_model_sub_state :: "config \<Rightarrow> ('g, 'pt) g3_lib \<Rightarrow> init_sub \<Rightarrow> init_state interpreter" where
  "init_model_sub_state cfg lib nested =
     \<lparr>get_raw_opcode = (\<lambda>p s. read_short (words_bigendian cfg) (model_data s) p),
      translate_opcode = base_translate_opcode,
      get_op_subcount = (\<lambda>p s. read_short (words_bigendian cfg) (model_data s) (p + 2)),
      op_defpoints = ignore_op_n,
      op_defp_start = ignore_op_n,
      op_flatpoly = init_op_flatpoly cfg lib,
      op_tmappoly = init_op_tmappoly cfg,
      op_sortnorm = init_op_sortnorm cfg nested,
      op_rodbm = ignore_op,
      op_subcall = init_op_subcall cfg nested,
      op_glow = ignore_op,
      op_default = base_op_default\<rparr>"

primrec init_model_sub ::
  "nat \<Rightarrow> config \<Rightarrow> ('g, 'pt) g3_lib \<Rightarrow> int \<Rightarrow> 16 word \<Rightarrow> mem \<times> int \<Rightarrow> (16 word, mem \<times> int) result" where
  "init_model_sub 0 cfg lib p h mn = (Inl OutOfFuel, mn)"
| "init_model_sub (Suc k) cfg lib p h mn =
     (let n = (if ndebug cfg then snd mn else snd mn + 1) in
      if \<not> Assert cfg (n < 1000) then (Inl AssertFailed, (fst mn, n))
      else case iterate_polymodel (Suc k) (init_model_sub_state cfg lib (init_model_sub k cfg lib)) p
                  \<lparr>highest_texture_num = h, model_data = fst mn, nest_count = n\<rparr> of
             (Inl e, s) \<Rightarrow> (Inl e, (model_data s, nest_count s))
           | (Inr _, s) \<Rightarrow> (Inr (highest_texture_num s), (model_data s, nest_count s)))"

text \<open>
  \<^verbatim>\<open>g3_init_polygon_model\<close> resets \<^verbatim>\<open>nest_count\<close> and starts from the texture
  number -1. It returns the number and leaves the buffer as the pass wrote it.
\<close>

definition g3_init_polygon_model ::
  "nat \<Rightarrow> config \<Rightarrow> ('g, 'pt) g3_lib \<Rightarrow> mem \<Rightarrow> (16 word, mem) result" where
  "g3_init_polygon_model fuel cfg lib model_ptr =
     (case init_model_sub fuel cfg lib 0 (- 1) (model_ptr, 0) of
        (r, (m', n)) \<Rightarrow> (r, m'))"

subsection \<open>swap_polygon_model_data: the byte order of a model\<close>






text \<open>\<^verbatim>\<open>n & ~1\<close> on the widened count.\<close>

definition and_not_1 :: "nat \<Rightarrow> nat" where
  "and_not_1 n = unat ((of_nat n :: 32 word) AND NOT 1)"
















subsection \<open>The two drawing interpreters\<close>

text \<open>
  What the state objects share by reference: \<^verbatim>\<open>Interp_point_list\<close>, the globals of
  the 3D library, and the canvas, which is the list of the drawing calls made so far.
  \<^verbatim>\<open>g3_draw_poly\<close> draws on \<^verbatim>\<open>*grd_curcanv\<close>, the other calls on \<^verbatim>\<open>canvas\<close>.
\<close>

type_synonym g3s_lrgb = "fix_t \<times> fix_t \<times> fix_t"
type_synonym g3s_uvl = "fix_t \<times> fix_t \<times> fix_t"

datatype ('pt, 'bm) g3_call =
    G3_draw_poly nat "'pt list" "8 word"
  | G3_draw_tmap nat "'pt list" "g3s_uvl list" "g3s_lrgb list" 'bm
  | G3_check_and_draw_poly "'pt list" "8 word"
  | G3_draw_rod_tmap 'bm 'pt int 'pt int g3s_lrgb

record ('g, 'pt, 'bm) scene =
  interp_point_list :: "'pt list"
  g3_globals :: 'g
  canvas :: "('pt, 'bm) g3_call list"

text \<open>The constant members of \<^verbatim>\<open>g3_interpreter_draw_base\<close>; an array is a list, a null pointer \<open>None\<close>.\<close>

record 'bm draw_args =
  model_bitmaps :: "'bm list"
  anim_angles :: "vms_angvec list option"
  model_light :: g3s_lrgb

definition f1_0 :: fix_t where
  "f1_0 = 0x10000"

definition zero_angles :: vms_angvec where
  "zero_angles = (0, 0, 0)"

text \<open>Division of two \<^verbatim>\<open>fix\<close> values rounds towards zero.\<close>

definition fix_div :: "fix_t \<Rightarrow> int \<Rightarrow> fix_t" where
  "fix_div a b = word_of_int (sint a sdiv b)"

text \<open>An element of an array by a signed index; outside the array it is \<open>None\<close>.\<close>

definition element :: "'a list \<Rightarrow> int \<Rightarrow> 'a option" where
  "element xs i = (if 0 \<le> i \<and> i < int (length xs) then Some (xs ! nat i) else None)"

text \<open>
  \<^verbatim>\<open>rotate_point_list(&Interp_point_list[d], src, n)\<close>: \<open>src j\<close> is the \<open>j\<close>-th
  vector of the source.
\<close>

primrec rotate_point_list ::
  "('g, 'pt) g3_lib \<Rightarrow> (nat \<Rightarrow> vms_vector option) \<Rightarrow> nat \<Rightarrow> nat \<Rightarrow> nat \<Rightarrow>
   ('g, 'pt, 'bm) scene \<Rightarrow> (unit, ('g, 'pt, 'bm) scene) result" where
  "rotate_point_list lib src 0 d j sc = (Inr (), sc)"
| "rotate_point_list lib src (Suc n) d j sc =
     (case src j of
        None \<Rightarrow> (Inl OutOfBounds, sc)
      | Some v \<Rightarrow>
          if d < length (interp_point_list sc)
          then rotate_point_list lib src n (Suc d) (Suc j)
                 (sc\<lparr>interp_point_list := (interp_point_list sc)[d := g3_rotate_point lib (g3_globals sc) v]\<rparr>)
          else (Inl OutOfBounds, sc))"

definition rotate ::
  "('g, 'pt) g3_lib \<Rightarrow> int \<Rightarrow> (nat \<Rightarrow> vms_vector option) \<Rightarrow> nat \<Rightarrow>
   ('g, 'pt, 'bm) scene \<Rightarrow> (unit, ('g, 'pt, 'bm) scene) result" where
  "rotate lib i src n sc =
     (if i < 0 then (if n = 0 then (Inr (), sc) else (Inl OutOfBounds, sc))
      else rotate_point_list lib src n (nat i) 0 sc)"

definition vectors_at :: "bool \<Rightarrow> mem \<Rightarrow> int \<Rightarrow> nat \<Rightarrow> vms_vector option" where
  "vectors_at be m p j = vp be m (p + int (j * sizeof_vms_vector))"

definition vectors_of :: "vms_vector list \<Rightarrow> nat \<Rightarrow> vms_vector option" where
  "vectors_of vs j = element vs (int j)"

text \<open>\<^verbatim>\<open>&Interp_point_list[wp(p + 30)[i]]\<close>\<close>

definition point_at :: "bool \<Rightarrow> mem \<Rightarrow> 'pt list \<Rightarrow> int \<Rightarrow> nat \<Rightarrow> 'pt option" where
  "point_at be m pts p i =
     (case w be m (p + 30 + 2 * int i) of
        None \<Rightarrow> None
      | Some ix \<Rightarrow> element pts (sint ix))"

text \<open>\<^verbatim>\<open>prepare_point_list<N>(nv, p)\<close>: the first \<open>nv\<close> entries of an array of \<open>N\<close>.\<close>

definition prepare_point_list :: "bool \<Rightarrow> mem \<Rightarrow> 'pt list \<Rightarrow> nat \<Rightarrow> nat \<Rightarrow> int \<Rightarrow> 'pt list option" where
  "prepare_point_list be m pts N nv p =
     (if nv > N then None else those (map (point_at be m pts p) [0..<nv]))"

definition get_noglow_light ::
  "('g, 'pt) g3_lib \<Rightarrow> 'g \<Rightarrow> g3s_lrgb \<Rightarrow> bool \<Rightarrow> mem \<Rightarrow> int \<Rightarrow> g3s_lrgb option" where
  "get_noglow_light lib g light be m p =
     (case vp be m (p + 16) of
        None \<Rightarrow> None
      | Some norm \<Rightarrow>
          (let negdot = - view_fvec_dot lib g norm;
               color = fix_div f1_0 4 + fix_div (negdot * 3) 4
           in case light of (r, gr, b) \<Rightarrow>
                Some (fixmul lib color r, fixmul lib color gr, fixmul lib color b)))"

definition get_glow_light :: "fix_t \<Rightarrow> g3s_lrgb" where
  "get_glow_light c = (c, c, c)"

text \<open>
  \<^verbatim>\<open>glow_values && glow_num < glow_values->size()\<close>, and then
  \<^verbatim>\<open>(*glow_values)[glow_num]\<close>: the glow value in force, if there is one.
\<close>

definition glow_value :: "fix_t list option \<Rightarrow> 32 word \<Rightarrow> fix_t option" where
  "glow_value glow_values glow_num =
     (case glow_values of
        None \<Rightarrow> None
      | Some gv \<Rightarrow> if unat glow_num < length gv then Some (gv ! unat glow_num) else None)"

text \<open>The \<^verbatim>\<open>g3s_uvl\<close> array behind the point numbers of a textured polygon.\<close>

definition uvl_at :: "bool \<Rightarrow> mem \<Rightarrow> int \<Rightarrow> nat \<Rightarrow> nat \<Rightarrow> g3s_uvl option" where
  "uvl_at be m p nv i = vp be m (p + 30 + int ((and_not_1 nv + 1) * 2) + int (i * 12))"

definition facing :: "('g, 'pt) g3_lib \<Rightarrow> 'g \<Rightarrow> bool \<Rightarrow> mem \<Rightarrow> int \<Rightarrow> int \<Rightarrow> bool option" where
  "facing lib g be m a b =
     (case (vp be m a, vp be m b) of
        (Some v, Some norm) \<Rightarrow> Some (g3_check_normal_facing lib g v norm > 0)
      | _ \<Rightarrow> None)"

type_synonym ('g, 'pt, 'bm) draw_sub =
  "int \<Rightarrow> ('g, 'pt, 'bm) scene \<Rightarrow> (unit, ('g, 'pt, 'bm) scene) result"

text \<open>\<^verbatim>\<open>get_sortnorm_offsets\<close>: the two offsets are held in \<^verbatim>\<open>uint16_t\<close>.\<close>

definition get_sortnorm_offsets ::
  "('g, 'pt) g3_lib \<Rightarrow> 'g \<Rightarrow> bool \<Rightarrow> mem \<Rightarrow> int \<Rightarrow> (16 word \<times> 16 word) option" where
  "get_sortnorm_offsets lib g be m p =
     (case (w be m (p + 30), w be m (p + 28), facing lib g be m (p + 16) (p + 4)) of
        (Some a, Some b, Some f) \<Rightarrow> Some (if f then (a, b) else (b, a))
      | _ \<Rightarrow> None)"

definition draw_op_sortnorm ::
  "('g, 'pt) g3_lib \<Rightarrow> bool \<Rightarrow> mem \<Rightarrow> ('g, 'pt, 'bm) draw_sub \<Rightarrow> int \<Rightarrow>
   ('g, 'pt, 'bm) scene \<Rightarrow> (unit, ('g, 'pt, 'bm) scene) result" where
  "draw_op_sortnorm lib be m nested p sc =
     (case get_sortnorm_offsets lib (g3_globals sc) be m p of
        None \<Rightarrow> (Inl OutOfBounds, sc)
      | Some (a, b) \<Rightarrow>
          (case nested (p + uint a) sc of
             (Inl e, sc1) \<Rightarrow> (Inl e, sc1)
           | (Inr _, sc1) \<Rightarrow> nested (p + uint b) sc1))"

definition draw_op_rodbm ::
  "('g, 'pt) g3_lib \<Rightarrow> 'bm draw_args \<Rightarrow> bool \<Rightarrow> mem \<Rightarrow> int \<Rightarrow>
   ('g, 'pt, 'bm) scene \<Rightarrow> (unit, ('g, 'pt, 'bm) scene) result" where
  "draw_op_rodbm lib args be m p sc =
     (case (vp be m (p + 20), vp be m (p + 4)) of
        (Some rod_bot, Some rod_top) \<Rightarrow>
          (case (w be m (p + 2), w be m (p + 16), w be m (p + 32)) of
             (Some t, Some bot_width, Some top_width) \<Rightarrow>
               (case element (model_bitmaps args) (sint t) of
                  None \<Rightarrow> (Inl OutOfBounds, sc)
                | Some bm \<Rightarrow>
                    (Inr (), sc\<lparr>canvas := canvas sc @
                       [G3_draw_rod_tmap bm (g3_rotate_point lib (g3_globals sc) rod_bot) (sint bot_width)
                          (g3_rotate_point lib (g3_globals sc) rod_top) (sint top_width) (f1_0, f1_0, f1_0)]\<rparr>))
           | _ \<Rightarrow> (Inl OutOfBounds, sc))
      | _ \<Rightarrow> (Inl OutOfBounds, sc))"

text \<open>
  \<^verbatim>\<open>g3_interpreter_draw_base::op_subcall\<close>: the sub-model is drawn by
  \<^verbatim>\<open>g3_draw_polygon_model\<close>, here \<open>nested\<close>; \<^verbatim>\<open>g3_done_instance\<close> is not reached
  when that throws.
\<close>

definition draw_op_subcall ::
  "('g, 'pt) g3_lib \<Rightarrow> 'bm draw_args \<Rightarrow> bool \<Rightarrow> mem \<Rightarrow> ('g, 'pt, 'bm) draw_sub \<Rightarrow> int \<Rightarrow>
   ('g, 'pt, 'bm) scene \<Rightarrow> (unit, ('g, 'pt, 'bm) scene) result" where
  "draw_op_subcall lib args be m nested p sc =
     (case vp be m (p + 4) of
        None \<Rightarrow> (Inl OutOfBounds, sc)
      | Some v \<Rightarrow>
          (case (case anim_angles args of
                   None \<Rightarrow> Some zero_angles
                 | Some angles \<Rightarrow>
                     (case w be m (p + 2) of None \<Rightarrow> None | Some i \<Rightarrow> element angles (sint i))) of
             None \<Rightarrow> (Inl OutOfBounds, sc)
           | Some a \<Rightarrow>
               (case w be m (p + 16) of
                  None \<Rightarrow> (Inl OutOfBounds, sc)
                | Some off \<Rightarrow>
                    (case nested (p + sint off)
                            (sc\<lparr>g3_globals := g3_start_instance_angles lib v a (g3_globals sc)\<rparr>) of
                       (Inl e, sc1) \<Rightarrow> (Inl e, sc1)
                     | (Inr _, sc1) \<Rightarrow>
                         (Inr (), sc1\<lparr>g3_globals := g3_done_instance lib (g3_globals sc1)\<rparr>)))))"

subsubsection \<open>g3_draw_polygon_model\<close>

text \<open>
  The state object adds \<^verbatim>\<open>unsigned glow_num\<close> to what is shared; a nested call works
  on an object of its own, whose \<^verbatim>\<open>glow_num\<close> starts at \<^verbatim>\<open>~0u\<close>.
\<close>

type_synonym ('g, 'pt, 'bm) draw_state = "('g, 'pt, 'bm) scene \<times> 32 word"

definition on_scene ::
  "(('g, 'pt, 'bm) scene \<Rightarrow> (unit, ('g, 'pt, 'bm) scene) result) \<Rightarrow>
   ('g, 'pt, 'bm) draw_state \<Rightarrow> (unit, ('g, 'pt, 'bm) draw_state) result" where
  "on_scene f s = (case f (fst s) of (r, sc) \<Rightarrow> (r, (sc, snd s)))"

fun static_op_flatpoly ::
  "config \<Rightarrow> ('g, 'pt) g3_lib \<Rightarrow> fix_t list option \<Rightarrow> mem \<Rightarrow> int \<Rightarrow> nat \<Rightarrow>
   ('g, 'pt, 'bm) draw_state \<Rightarrow> (unit, ('g, 'pt, 'bm) draw_state) result" where
  "static_op_flatpoly cfg lib glow_values m p nv (sc, glow_num) =
     (let s = (sc, glow_num) in
        if nv > max_points_per_poly cfg then (Inr (), s)
        else case facing lib (g3_globals sc) (words_bigendian cfg) m (p + 4) (p + 16) of
          None \<Rightarrow> (Inl OutOfBounds, s)
        | Some f \<Rightarrow>
            if f then
              (if build_descent_i cfg \<or> glow_value glow_values glow_num \<noteq> Some (- 3) then
                 (case w (words_bigendian cfg) m (p + 28) of
                    None \<Rightarrow> (Inl OutOfBounds, s)
                  | Some c \<Rightarrow>
                      (let color = (if build_descent_i cfg then ucast c
                                    else if glow_value glow_values glow_num = Some (- 2) then 255
                                    else word_of_int (gr_find_closest_color_15bpp lib (sint c)))
                       in case prepare_point_list (words_bigendian cfg) m (interp_point_list sc)
                                 (max_points_per_poly cfg) nv p of
                            None \<Rightarrow> (Inl OutOfBounds, s)
                          | Some point_list \<Rightarrow>
                              (Inr (), (sc\<lparr>canvas := canvas sc @ [G3_draw_poly nv point_list color]\<rparr>,
                                        glow_num))))
               else (Inr (), s))
            else (Inr (), s))"

text \<open>
  The light of a textured polygon: the glow value in force, which is used up
  (\<^verbatim>\<open>exchange(glow_num, -1)\<close>), or else the light from the surface normal.
\<close>

definition static_light ::
  "('g, 'pt) g3_lib \<Rightarrow> 'g \<Rightarrow> g3s_lrgb \<Rightarrow> fix_t list option \<Rightarrow> bool \<Rightarrow> mem \<Rightarrow> int \<Rightarrow> 32 word \<Rightarrow>
   (g3s_lrgb \<times> 32 word) option" where
  "static_light lib g light glow_values be m p glow_num =
     (case glow_value glow_values glow_num of
        Some c \<Rightarrow> Some (get_glow_light c, - 1)
      | None \<Rightarrow>
          (case get_noglow_light lib g light be m p of
             None \<Rightarrow> None
           | Some l \<Rightarrow> Some (l, glow_num)))"

definition average_light :: "g3s_lrgb \<Rightarrow> fix_t" where
  "average_light light = (case light of (r, g, b) \<Rightarrow> fix_div (r + g + b) 3)"

fun static_op_tmappoly ::
  "config \<Rightarrow> ('g, 'pt) g3_lib \<Rightarrow> 'bm draw_args \<Rightarrow> fix_t list option \<Rightarrow> mem \<Rightarrow> int \<Rightarrow> nat \<Rightarrow>
   ('g, 'pt, 'bm) draw_state \<Rightarrow> (unit, ('g, 'pt, 'bm) draw_state) result" where
  "static_op_tmappoly cfg lib args glow_values m p nv (sc, glow_num) =
     (let s = (sc, glow_num) in
        if nv > max_points_per_poly cfg then (Inr (), s)
        else case facing lib (g3_globals sc) (words_bigendian cfg) m (p + 4) (p + 16) of
          None \<Rightarrow> (Inl OutOfBounds, s)
        | Some f \<Rightarrow>
            if \<not> f then (Inr (), s)
            else
             (case static_light lib (g3_globals sc) (model_light args) glow_values
                     (words_bigendian cfg) m p glow_num of
                None \<Rightarrow> (Inl OutOfBounds, s)
              | Some (light, glow_num') \<Rightarrow>
                (case those (map (\<lambda>i. map_option (\<lambda>(u, v, l). (u, v, average_light light))
                                         (uvl_at (words_bigendian cfg) m p nv i)) [0..<nv]) of
                   None \<Rightarrow> (Inl OutOfBounds, (sc, glow_num'))
                 | Some uvl_list \<Rightarrow>
                     (case prepare_point_list (words_bigendian cfg) m (interp_point_list sc)
                             (max_points_per_poly cfg) nv p of
                        None \<Rightarrow> (Inl OutOfBounds, (sc, glow_num'))
                      | Some point_list \<Rightarrow>
                          (case (case w (words_bigendian cfg) m (p + 28) of
                                   None \<Rightarrow> None
                                 | Some t \<Rightarrow> element (model_bitmaps args) (sint t)) of
                             None \<Rightarrow> (Inl OutOfBounds, (sc, glow_num'))
                           | Some bm \<Rightarrow>
                               (Inr (), (sc\<lparr>canvas := canvas sc @
                                   [G3_draw_tmap nv point_list uvl_list (replicate nv light) bm]\<rparr>,
                                 glow_num')))))))"

definition static_op_glow ::
  "config \<Rightarrow> mem \<Rightarrow> int \<Rightarrow> ('g, 'pt, 'bm) draw_state \<Rightarrow> (unit, ('g, 'pt, 'bm) draw_state) result" where
  "static_op_glow cfg m p s =
     (case w (words_bigendian cfg) m (p + 2) of
        None \<Rightarrow> (Inl OutOfBounds, s)
      | Some i \<Rightarrow> (Inr (), (fst s, scast i)))"

definition g3_draw_polygon_model_state ::
  "config \<Rightarrow> ('g, 'pt) g3_lib \<Rightarrow> 'bm draw_args \<Rightarrow> fix_t list option \<Rightarrow> mem \<Rightarrow>
   ('g, 'pt, 'bm) draw_sub \<Rightarrow> ('g, 'pt, 'bm) draw_state interpreter" where
  "g3_draw_polygon_model_state cfg lib args glow_values m nested =
     \<lparr>get_raw_opcode = base_get_raw_opcode (words_bigendian cfg) m,
      translate_opcode = base_translate_opcode,
      get_op_subcount = base_get_op_subcount (words_bigendian cfg) m,
      op_defpoints = (\<lambda>p n. on_scene (rotate lib 0 (vectors_at (words_bigendian cfg) m (p + 4)) n)),
      op_defp_start = (\<lambda>p n s.
        case w (words_bigendian cfg) m (p + 4) of
          None \<Rightarrow> (Inl OutOfBounds, s)
        | Some i \<Rightarrow> on_scene (rotate lib (sint i) (vectors_at (words_bigendian cfg) m (p + 8)) n) s),
      op_flatpoly = static_op_flatpoly cfg lib glow_values m,
      op_tmappoly = static_op_tmappoly cfg lib args glow_values m,
      op_sortnorm = (\<lambda>p. on_scene (draw_op_sortnorm lib (words_bigendian cfg) m nested p)),
      op_rodbm = (\<lambda>p. on_scene (draw_op_rodbm lib args (words_bigendian cfg) m p)),
      op_subcall = (\<lambda>p. on_scene (draw_op_subcall lib args (words_bigendian cfg) m nested p)),
      op_glow = static_op_glow cfg m,
      op_default = base_op_default\<rparr>"

primrec g3_draw_polygon_model ::
  "nat \<Rightarrow> config \<Rightarrow> ('g, 'pt) g3_lib \<Rightarrow> 'bm draw_args \<Rightarrow> fix_t list option \<Rightarrow> mem \<Rightarrow> int \<Rightarrow>
   ('g, 'pt, 'bm) scene \<Rightarrow> (unit, ('g, 'pt, 'bm) scene) result" where
  "g3_draw_polygon_model 0 cfg lib args glow_values m p sc = (Inl OutOfFuel, sc)"
| "g3_draw_polygon_model (Suc k) cfg lib args glow_values m p sc =
     (case iterate_polymodel (Suc k)
             (g3_draw_polygon_model_state cfg lib args glow_values m
                (g3_draw_polygon_model k cfg lib args glow_values m)) p (sc, - 1) of
        (Inl e, s) \<Rightarrow> (Inl e, fst s)
      | (Inr _, s) \<Rightarrow> (Inr (), fst s))"

subsubsection \<open>g3_draw_morphing_model\<close>

text \<open>
  The triangle fan of \<^verbatim>\<open>op_flatpoly\<close>:
  \<^verbatim>\<open>for (ntris = nv - 2; ntris; ntris--)\<close>, with \<open>a\<close> and \<open>b\<close> the first two entries of
  the point list and \<open>i\<close> the number of the next point. It ends when \<open>ntris\<close> reaches 0,
  or when a point number is read outside the buffer.
\<close>

function morph_fan ::
  "bool \<Rightarrow> mem \<Rightarrow> 'pt list \<Rightarrow> int \<Rightarrow> 8 word \<Rightarrow> int \<Rightarrow> nat \<Rightarrow> 'pt \<Rightarrow> 'pt \<Rightarrow>
   ('pt, 'bm) g3_call list \<Rightarrow> (unit, ('pt, 'bm) g3_call list) result" where
  "morph_fan be m pts p color ntris i a b cv =
     (if ntris = 0 then (Inr (), cv)
      else case point_at be m pts p i of
        None \<Rightarrow> (Inl OutOfBounds, cv)
      | Some c \<Rightarrow>
          morph_fan be m pts p color (ntris - 1) (Suc i) a c
            (cv @ [G3_check_and_draw_poly [a, b, c] color]))"
  by pat_completeness auto
termination
  by (relation "measure (\<lambda>(be, m, pts, p, color, ntris, i, a, b, cv).
        nat (int (length m) - (p + 30 + 2 * int i)))")
     (auto simp: point_at_def w_def in_buffer_def split: if_splits option.splits)

definition morph_op_flatpoly ::
  "config \<Rightarrow> mem \<Rightarrow> int \<Rightarrow> nat \<Rightarrow> ('g, 'pt, 'bm) scene \<Rightarrow> (unit, ('g, 'pt, 'bm) scene) result" where
  "morph_op_flatpoly cfg m p nv sc =
     (case w (words_bigendian cfg) m (p + 28) of
        None \<Rightarrow> (Inl OutOfBounds, sc)
      | Some c \<Rightarrow>
          (case prepare_point_list (words_bigendian cfg) m (interp_point_list sc) 3 2 p of
             Some [a, b] \<Rightarrow>
               (case morph_fan (words_bigendian cfg) m (interp_point_list sc) p (ucast c)
                       (int nv - 2) 2 a b (canvas sc) of
                  (r, cv) \<Rightarrow> (r, sc\<lparr>canvas := cv\<rparr>))
           | _ \<Rightarrow> (Inl OutOfBounds, sc)))"

text \<open>
  The triangle fan over a list of points: the triangles (0, 1, 2), (0, 2, 3), ... of the
  first point and every two neighbours among the others, two fewer than there are points.
\<close>

definition triangle_fan :: "'pt list \<Rightarrow> 8 word \<Rightarrow> ('pt, 'bm) g3_call list" where
  "triangle_fan ps color =
     map (\<lambda>j. G3_check_and_draw_poly [ps ! 0, ps ! Suc j, ps ! Suc (Suc j)] color)
       [0..<length ps - 2]"

definition morph_op_tmappoly ::
  "config \<Rightarrow> ('g, 'pt) g3_lib \<Rightarrow> 'bm draw_args \<Rightarrow> mem \<Rightarrow> int \<Rightarrow> nat \<Rightarrow>
   ('g, 'pt, 'bm) scene \<Rightarrow> (unit, ('g, 'pt, 'bm) scene) result" where
  "morph_op_tmappoly cfg lib args m p nv sc =
     (if nv > max_points_per_poly cfg then (Inr (), sc)
      else case get_noglow_light lib (g3_globals sc) (model_light args) (words_bigendian cfg) m p of
        None \<Rightarrow> (Inl OutOfBounds, sc)
      | Some light \<Rightarrow>
          (case those (map (uvl_at (words_bigendian cfg) m p nv) [0..<nv]) of
             None \<Rightarrow> (Inl OutOfBounds, sc)
           | Some uvl_list \<Rightarrow>
               (case prepare_point_list (words_bigendian cfg) m (interp_point_list sc)
                       (max_points_per_poly cfg) nv p of
                  None \<Rightarrow> (Inl OutOfBounds, sc)
                | Some point_list \<Rightarrow>
                    (case (case w (words_bigendian cfg) m (p + 28) of
                             None \<Rightarrow> None
                           | Some t \<Rightarrow> element (model_bitmaps args) (sint t)) of
                       None \<Rightarrow> (Inl OutOfBounds, sc)
                     | Some bm \<Rightarrow>
                         (Inr (), sc\<lparr>canvas := canvas sc @
                            [G3_draw_tmap nv point_list uvl_list (replicate nv light) bm]\<rparr>)))))"

text \<open>
  \<open>nested_morph\<close> is \<^verbatim>\<open>g3_draw_morphing_model\<close>, which \<^verbatim>\<open>op_sortnorm\<close> calls, and
  \<open>nested_draw\<close> is \<^verbatim>\<open>g3_draw_polygon_model\<close> with no glow values, which the inherited
  \<^verbatim>\<open>op_subcall\<close> calls.
\<close>

definition g3_draw_morphing_model_state ::
  "config \<Rightarrow> ('g, 'pt) g3_lib \<Rightarrow> 'bm draw_args \<Rightarrow> vms_vector list \<Rightarrow> mem \<Rightarrow>
   ('g, 'pt, 'bm) draw_sub \<Rightarrow> ('g, 'pt, 'bm) draw_sub \<Rightarrow> ('g, 'pt, 'bm) scene interpreter" where
  "g3_draw_morphing_model_state cfg lib args new_points m nested_morph nested_draw =
     \<lparr>get_raw_opcode = base_get_raw_opcode (words_bigendian cfg) m,
      translate_opcode = base_translate_opcode,
      get_op_subcount = base_get_op_subcount (words_bigendian cfg) m,
      op_defpoints = (\<lambda>p n. rotate lib 0 (vectors_of new_points) n),
      op_defp_start = (\<lambda>p n sc.
        case w (words_bigendian cfg) m (p + 4) of
          None \<Rightarrow> (Inl OutOfBounds, sc)
        | Some i \<Rightarrow> rotate lib (sint i) (vectors_of new_points) n sc),
      op_flatpoly = morph_op_flatpoly cfg m,
      op_tmappoly = morph_op_tmappoly cfg lib args m,
      op_sortnorm = draw_op_sortnorm lib (words_bigendian cfg) m nested_morph,
      op_rodbm = draw_op_rodbm lib args (words_bigendian cfg) m,
      op_subcall = draw_op_subcall lib args (words_bigendian cfg) m nested_draw,
      op_glow = ignore_op,
      op_default = base_op_default\<rparr>"

primrec g3_draw_morphing_model ::
  "nat \<Rightarrow> config \<Rightarrow> ('g, 'pt) g3_lib \<Rightarrow> 'bm draw_args \<Rightarrow> vms_vector list \<Rightarrow> mem \<Rightarrow> int \<Rightarrow>
   ('g, 'pt, 'bm) scene \<Rightarrow> (unit, ('g, 'pt, 'bm) scene) result" where
  "g3_draw_morphing_model 0 cfg lib args new_points m p sc = (Inl OutOfFuel, sc)"
| "g3_draw_morphing_model (Suc k) cfg lib args new_points m p sc =
     returning () (iterate_polymodel (Suc k)
        (g3_draw_morphing_model_state cfg lib args new_points m
           (g3_draw_morphing_model k cfg lib args new_points m)
           (g3_draw_polygon_model k cfg lib args None m)) p sc)"

subsection \<open>The record layout, as the format description gives it\<close>

text \<open>
  The eight kinds of record; \<^verbatim>\<open>EndOfStream\<close> is not a record but the tag that ends a
  stream.
\<close>

datatype opcode =
  DefinePoints | FlatPolygon | TexturedPolygon | SortByNormal | RodBitmap | SubmodelCall
  | DefinePointsWithStart | Glow

fun tag_of :: "opcode \<Rightarrow> 32 word" where
  "tag_of DefinePoints = OP_DEFPOINTS"
| "tag_of FlatPolygon = OP_FLATPOLY"
| "tag_of TexturedPolygon = OP_TMAPPOLY"
| "tag_of SortByNormal = OP_SORTNORM"
| "tag_of RodBitmap = OP_RODBM"
| "tag_of SubmodelCall = OP_SUBCALL"
| "tag_of DefinePointsWithStart = OP_DEFP_START"
| "tag_of Glow = OP_GLOW"

fun has_count :: "opcode \<Rightarrow> bool" where
  "has_count DefinePoints = True"
| "has_count DefinePointsWithStart = True"
| "has_count FlatPolygon = True"
| "has_count TexturedPolygon = True"
| "has_count _ = False"

text \<open>
  \<open>round_up_odd n\<close> is \<open>n\<close> rounded up to an odd number. \<open>spec_length\<close> is the table of
  the format description word for word; \<open>record_length\<close> differs from it in the two
  polygon records, where the point numbers take \<open>round_up_odd n\<close> entries of two bytes.
\<close>

definition round_up_odd :: "nat \<Rightarrow> nat" where
  "round_up_odd n = (if odd n then n else n + 1)"

fun spec_length :: "opcode \<Rightarrow> nat \<Rightarrow> nat" where
  "spec_length DefinePoints n = 4 + n * 12"
| "spec_length DefinePointsWithStart n = 8 + n * 12"
| "spec_length FlatPolygon n = 30 + (round_up_odd n + 1) * 2"
| "spec_length TexturedPolygon n = 30 + (round_up_odd n + 1) * 2 + n * 12"
| "spec_length SortByNormal n = 32"
| "spec_length RodBitmap n = 36"
| "spec_length SubmodelCall n = 20"
| "spec_length Glow n = 4"

fun record_length :: "opcode \<Rightarrow> nat \<Rightarrow> nat" where
  "record_length DefinePoints n = 4 + n * 12"
| "record_length DefinePointsWithStart n = 8 + n * 12"
| "record_length FlatPolygon n = 30 + round_up_odd n * 2"
| "record_length TexturedPolygon n = 30 + round_up_odd n * 2 + n * 12"
| "record_length SortByNormal n = 32"
| "record_length RodBitmap n = 36"
| "record_length SubmodelCall n = 20"
| "record_length Glow n = 4"

text \<open>
  The cursor and the state of \<^verbatim>\<open>iterate_polymodel\<close> when its loop has gone round
  \<open>i\<close> times; \<open>None\<close> when it has ended before.
\<close>

primrec cursor_after :: "nat \<Rightarrow> 's interpreter \<Rightarrow> int \<Rightarrow> 's \<Rightarrow> (int \<times> 's) option" where
  "cursor_after 0 st p s = Some (p, s)"
| "cursor_after (Suc i) st p s =
     (case get_raw_opcode st p s of
        Inl e \<Rightarrow> None
      | Inr op \<Rightarrow>
          if ucast op = OP_EOF then None
          else (case translate_opcode st p op s of
                  (Inl e, s1) \<Rightarrow> None
                | (Inr opc, s1) \<Rightarrow>
                    (case dispatch_polymodel_op st p s1 opc of
                       (Inl e, s2) \<Rightarrow> None
                     | (Inr record_size, s2) \<Rightarrow> cursor_after i st (p + int record_size) s2)))"

text \<open>A build and buffers for the examples.\<close>

definition d2_release :: config where
  "d2_release = \<lparr>words_bigendian = False, build_descent_i = False, ndebug = True,
                  max_points_per_poly = 25, max_chunks = 50\<rparr>"

subsection \<open>Well-formed streams\<close>

text \<open>
  A stream as the model files hold it (in Intel byte order): at \<open>p\<close> begin the records
  \<open>recs\<close>, each given by its kind and its vertex count, one behind the other by the
  lengths of the layout, and behind the last one stands the tag EndOfStream.
  \<open>stream_length\<close> is the sum of the lengths, \<open>chunk_count\<close> the number of chunks that
  \<^verbatim>\<open>get_chunks\<close> stores for the records.
\<close>

fun well_formed :: "mem \<Rightarrow> int \<Rightarrow> (opcode \<times> nat) list \<Rightarrow> bool" where
  "well_formed m p [] = (w False m p = Some 0)"
| "well_formed m p ((opc, n) # rs) =
     (map_option ucast (w False m p) = Some (tag_of opc)
      \<and> (has_count opc \<longrightarrow> map_option unat (w False m (p + 2)) = Some n)
      \<and> well_formed m (p + int (record_length opc n)) rs)"

definition stream_length :: "(opcode \<times> nat) list \<Rightarrow> nat" where
  "stream_length rs = sum_list (map (\<lambda>(opc, n). record_length opc n) rs)"

fun chunks_of :: "opcode \<Rightarrow> nat" where
  "chunks_of SortByNormal = 2"
| "chunks_of SubmodelCall = 1"
| "chunks_of _ = 0"

definition chunk_count :: "(opcode \<times> nat) list \<Rightarrow> nat" where
  "chunk_count rs = sum_list (map (\<lambda>(opc, n). chunks_of opc) rs)"

definition chunk_buf :: mem where
  "chunk_buf = [8, 0, 5, 0,
                6, 0, 1, 0,  0, 0, 0, 0, 0, 0, 0, 0, 0, 0, 0, 0,  16, 0, 0, 0,
                1, 0, 1, 0,  0, 0, 0, 0, 0, 0, 0, 0, 0, 0, 0, 0,
                0, 0]"

text \<open>
  A library for the examples: a polygon faces the viewer when the first component of its
  normal is positive, the palette maps a colour to its residue modulo 256, and the rest
  does nothing. With it a scene of one point, a model that is one flat polygon of 40
  points (\<open>flat40\<close>) or of three (\<open>flat3\<close>), the latter behind a glow record
  (\<open>glow_flat\<close>), a textured polygon of three points behind a glow record of index 5
  (\<open>glow_tmap\<close>), and a call of a sub-model 1000 bytes ahead in a buffer of 22
  (\<open>sub_buf\<close>).
\<close>

definition plain_lib :: "(unit, nat) g3_lib" where
  "plain_lib = \<lparr>g3_check_normal_facing = (\<lambda>g v norm. sint (fst norm)),
                 gr_find_closest_color_15bpp = (\<lambda>c. c mod 256),
                 g3_rotate_point = (\<lambda>g v. 0),
                 g3_start_instance_angles = (\<lambda>v a g. g),
                 g3_done_instance = (\<lambda>g. g),
                 view_fvec_dot = (\<lambda>g v. 0),
                 fixmul = (\<lambda>a b. a)\<rparr>"

definition plain_args :: "unit draw_args" where
  "plain_args = \<lparr>model_bitmaps = [()], anim_angles = None, model_light = (f1_0, f1_0, f1_0)\<rparr>"

definition plain_scene :: "(unit, nat, unit) scene" where
  "plain_scene = \<lparr>interp_point_list = [0], g3_globals = (), canvas = []\<rparr>"

definition flat40 :: mem where
  "flat40 = [2, 0, 40, 0] @ replicate 12 0 @ [1, 0, 0, 0] @ replicate 8 0 @ [7, 0]
            @ replicate 82 0 @ [0, 0]"

definition flat3 :: mem where
  "flat3 = [2, 0, 3, 0] @ replicate 12 0 @ [1, 0, 0, 0] @ replicate 8 0 @ [7, 0]
           @ replicate 6 0 @ [0, 0]"

definition glow_flat :: mem where
  "glow_flat = [8, 0, 0, 0] @ flat3"

definition glow_tmap :: mem where
  "glow_tmap = [8, 0, 5, 0] @ [3, 0, 3, 0] @ replicate 12 0 @ [1, 0, 0, 0] @ replicate 8 0 @ [0, 0]
               @ replicate 6 0 @ replicate 36 0 @ [0, 0]"

definition sub_buf :: mem where
  "sub_buf = [6, 0] @ replicate 14 0 @ [232, 3, 0, 0] @ [0, 0]"

definition no_sub :: "(unit, nat, unit) draw_sub" where
  "no_sub p sc = (Inr (), sc)"

subsection \<open>Model hierarchies\<close>

text \<open>
  What the initial pass walks through: the records of a model, with the two branches of a
  SortByNormal record and the sub-model of a SubmodelCall record as hierarchies of their
  own. \<open>model_at be m p rs\<close> says that the buffer holds the hierarchy \<open>rs\<close> at \<open>p\<close>: the
  tags and counts are there, the records stand one behind the other up to the tag
  EndOfStream, and the branches begin where the offsets of the records point. \<open>textures\<close>
  are the texture numbers of the TexturedPolygon records in the order of the pass,
  \<open>calls\<close> the number of nested calls of \<^verbatim>\<open>init_model_sub\<close>, \<open>counts_ok\<close> that every
  polygon has more than two points, \<open>fuel_needed\<close> the depth of the hierarchy plus the
  number of records of its longest stream. \<open>ctrl\<close> lists the bytes the pass reads
  (tags, counts, texture numbers and offsets) and \<open>colours\<close> the bytes the Descent 1
  build writes (the colour of every FlatPolygon record).
\<close>

datatype node =
    Points nat
  | PointsWithStart nat
  | FlatPoly nat
  | TexturedPoly nat "16 word"
  | SortNode "node list" "node list"
  | Rod
  | SubModel "node list"
  | GlowIndex

definition counted :: "bool \<Rightarrow> mem \<Rightarrow> int \<Rightarrow> 16 word \<Rightarrow> nat \<Rightarrow> bool" where
  "counted be m p t n \<longleftrightarrow> w be m p = Some t \<and> map_option unat (w be m (p + 2)) = Some n"

fun model_at :: "bool \<Rightarrow> mem \<Rightarrow> int \<Rightarrow> node list \<Rightarrow> bool" where
  "model_at be m p [] = (w be m p = Some 0)"
| "model_at be m p (Points n # rs) =
     (counted be m p 1 n \<and> model_at be m (p + int (record_length DefinePoints n)) rs)"
| "model_at be m p (PointsWithStart n # rs) =
     (counted be m p 7 n \<and> model_at be m (p + int (record_length DefinePointsWithStart n)) rs)"
| "model_at be m p (FlatPoly n # rs) =
     (counted be m p 2 n \<and> model_at be m (p + int (record_length FlatPolygon n)) rs)"
| "model_at be m p (TexturedPoly n t # rs) =
     (counted be m p 3 n \<and> w be m (p + 28) = Some t
      \<and> model_at be m (p + int (record_length TexturedPolygon n)) rs)"
| "model_at be m p (SortNode a b # rs) =
     (w be m p = Some 4
      \<and> (case w be m (p + 28) of None \<Rightarrow> False | Some off \<Rightarrow> model_at be m (p + sint off) a)
      \<and> (case w be m (p + 30) of None \<Rightarrow> False | Some off \<Rightarrow> model_at be m (p + sint off) b)
      \<and> model_at be m (p + 32) rs)"
| "model_at be m p (Rod # rs) = (w be m p = Some 5 \<and> model_at be m (p + 36) rs)"
| "model_at be m p (SubModel a # rs) =
     (w be m p = Some 6
      \<and> (case w be m (p + 16) of None \<Rightarrow> False | Some off \<Rightarrow> model_at be m (p + sint off) a)
      \<and> model_at be m (p + 20) rs)"
| "model_at be m p (GlowIndex # rs) = (w be m p = Some 8 \<and> model_at be m (p + 4) rs)"

fun textures :: "node list \<Rightarrow> 16 word list" where
  "textures [] = []"
| "textures (TexturedPoly n t # rs) = t # textures rs"
| "textures (SortNode a b # rs) = textures a @ textures b @ textures rs"
| "textures (SubModel a # rs) = textures a @ textures rs"
| "textures (_ # rs) = textures rs"

fun calls :: "node list \<Rightarrow> nat" where
  "calls [] = 0"
| "calls (SortNode a b # rs) = 2 + calls a + calls b + calls rs"
| "calls (SubModel a # rs) = 1 + calls a + calls rs"
| "calls (_ # rs) = calls rs"

fun counts_ok :: "node list \<Rightarrow> bool" where
  "counts_ok [] = True"
| "counts_ok (FlatPoly n # rs) = (n > 2 \<and> counts_ok rs)"
| "counts_ok (TexturedPoly n t # rs) = (n > 2 \<and> counts_ok rs)"
| "counts_ok (SortNode a b # rs) = (counts_ok a \<and> counts_ok b \<and> counts_ok rs)"
| "counts_ok (SubModel a # rs) = (counts_ok a \<and> counts_ok rs)"
| "counts_ok (_ # rs) = counts_ok rs"

fun fuel_needed :: "node list \<Rightarrow> nat" where
  "fuel_needed [] = 1"
| "fuel_needed (SortNode a b # rs) =
     max (Suc (fuel_needed a)) (max (Suc (fuel_needed b)) (Suc (fuel_needed rs)))"
| "fuel_needed (SubModel a # rs) = max (Suc (fuel_needed a)) (Suc (fuel_needed rs))"
| "fuel_needed (_ # rs) = Suc (fuel_needed rs)"

fun ctrl :: "bool \<Rightarrow> mem \<Rightarrow> int \<Rightarrow> node list \<Rightarrow> int list" where
  "ctrl be m p [] = [p, p + 1]"
| "ctrl be m p (Points n # rs) =
     [p, p + 1, p + 2, p + 3] @ ctrl be m (p + int (record_length DefinePoints n)) rs"
| "ctrl be m p (PointsWithStart n # rs) =
     [p, p + 1, p + 2, p + 3] @ ctrl be m (p + int (record_length DefinePointsWithStart n)) rs"
| "ctrl be m p (FlatPoly n # rs) =
     [p, p + 1, p + 2, p + 3] @ ctrl be m (p + int (record_length FlatPolygon n)) rs"
| "ctrl be m p (TexturedPoly n t # rs) =
     [p, p + 1, p + 2, p + 3, p + 28, p + 29]
     @ ctrl be m (p + int (record_length TexturedPolygon n)) rs"
| "ctrl be m p (SortNode a b # rs) =
     [p, p + 1, p + 28, p + 29, p + 30, p + 31]
     @ (case w be m (p + 28) of None \<Rightarrow> [] | Some off \<Rightarrow> ctrl be m (p + sint off) a)
     @ (case w be m (p + 30) of None \<Rightarrow> [] | Some off \<Rightarrow> ctrl be m (p + sint off) b)
     @ ctrl be m (p + 32) rs"
| "ctrl be m p (Rod # rs) = [p, p + 1] @ ctrl be m (p + 36) rs"
| "ctrl be m p (SubModel a # rs) =
     [p, p + 1, p + 16, p + 17]
     @ (case w be m (p + 16) of None \<Rightarrow> [] | Some off \<Rightarrow> ctrl be m (p + sint off) a)
     @ ctrl be m (p + 20) rs"
| "ctrl be m p (GlowIndex # rs) = [p, p + 1] @ ctrl be m (p + 4) rs"

fun colours :: "bool \<Rightarrow> mem \<Rightarrow> int \<Rightarrow> node list \<Rightarrow> int list" where
  "colours be m p [] = []"
| "colours be m p (Points n # rs) = colours be m (p + int (record_length DefinePoints n)) rs"
| "colours be m p (PointsWithStart n # rs) =
     colours be m (p + int (record_length DefinePointsWithStart n)) rs"
| "colours be m p (FlatPoly n # rs) =
     [p + 28, p + 29] @ colours be m (p + int (record_length FlatPolygon n)) rs"
| "colours be m p (TexturedPoly n t # rs) =
     colours be m (p + int (record_length TexturedPolygon n)) rs"
| "colours be m p (SortNode a b # rs) =
     (case w be m (p + 28) of None \<Rightarrow> [] | Some off \<Rightarrow> colours be m (p + sint off) a)
     @ (case w be m (p + 30) of None \<Rightarrow> [] | Some off \<Rightarrow> colours be m (p + sint off) b)
     @ colours be m (p + 32) rs"
| "colours be m p (Rod # rs) = colours be m (p + 36) rs"
| "colours be m p (SubModel a # rs) =
     (case w be m (p + 16) of None \<Rightarrow> [] | Some off \<Rightarrow> colours be m (p + sint off) a)
     @ colours be m (p + 20) rs"
| "colours be m p (GlowIndex # rs) = colours be m (p + 4) rs"

definition colours_apart :: "bool \<Rightarrow> mem \<Rightarrow> int \<Rightarrow> node list \<Rightarrow> bool" where
  "colours_apart be m p t \<longleftrightarrow> list_all (\<lambda>x. x \<notin> set (ctrl be m p t)) (colours be m p t)"

text \<open>
  \<open>highest h ts\<close> is the running maximum that the pass keeps, begun at \<open>h\<close> and taken
  through the texture numbers \<open>ts\<close> with the signed comparison of \<^verbatim>\<open>op_tmappoly\<close>;
  \<open>after_calls\<close> is \<^verbatim>\<open>nest_count\<close> after a number of nested calls; two buffers \<open>agree\<close>
  outside a set of positions when they differ at most there.
\<close>

definition highest :: "16 word \<Rightarrow> 16 word list \<Rightarrow> 16 word" where
  "highest h ts = fold (\<lambda>t h. if sint t > sint h then t else h) ts h"

definition after_calls :: "config \<Rightarrow> int \<Rightarrow> nat \<Rightarrow> int" where
  "after_calls cfg nest c = (if ndebug cfg then nest else nest + int c)"

definition agree :: "int set \<Rightarrow> mem \<Rightarrow> mem \<Rightarrow> bool" where
  "agree C m m' \<longleftrightarrow> length m' = length m \<and> (\<forall>i < length m. int i \<notin> C \<longrightarrow> m' ! i = m ! i)"

text \<open>
  A build with the assertions compiled in, and a model of three textured triangles:
  a SortByNormal record whose branches hold the texture numbers 3 and 7, and a
  SubmodelCall record whose sub-model holds the texture number 1.
\<close>

definition d2_debug :: config where
  "d2_debug = \<lparr>words_bigendian = False, build_descent_i = False, ndebug = False,
                max_points_per_poly = 25, max_chunks = 50\<rparr>"

definition textured3 :: "8 word \<Rightarrow> mem" where
  "textured3 t = [3, 0, 3, 0] @ replicate 24 0 @ [t, 0] @ replicate 42 0 @ [0, 0]"

definition tex_model :: mem where
  "tex_model = [4, 0] @ replicate 26 0 @ [54, 0, 128, 0]
               @ [6, 0] @ replicate 14 0 @ [170, 0, 0, 0]
               @ [0, 0]
               @ textured3 3 @ textured3 7 @ textured3 1"

definition tex_tree :: "node list" where
  "tex_tree = [SortNode [TexturedPoly 3 3] [TexturedPoly 3 7], SubModel [TexturedPoly 3 1]]"



section \<open>Properties\<close>

subsection \<open>Words\<close>

lemmas opcode_defs =
  OP_EOF_def OP_DEFPOINTS_def OP_FLATPOLY_def OP_TMAPPOLY_def OP_SORTNORM_def
  OP_RODBM_def OP_SUBCALL_def OP_DEFP_START_def OP_GLOW_def

lemma and_not_1_eq: "(n :: 'a::len word) AND NOT 1 = n - (n AND 1)"
  by (metis (no_types, lifting) bit.conj_disj_distrib bit.de_Morgan_conj
    bit_and_iff disjunctive_diff word_and_not word_ao_absorbs(8))

lemma unat_and_not_1: "unat ((n :: 16 word) AND NOT 1) = unat n - unat n mod 2"
proof -
  have a: "n AND 1 \<le> n" by (simp add: word_and_le2)
  have "unat (n AND 1) = unat n mod 2"
    by (simp add: and_one_eq unat_mod)
  with a show ?thesis
    unfolding and_not_1_eq by (simp add: unat_sub)
qed

lemma round_up_odd_code: "unat ((n :: 16 word) AND NOT 1) + 1 = round_up_odd (unat n)"
  unfolding unat_and_not_1 round_up_odd_def
  by (auto simp: odd_iff_mod_2_eq_one)

lemma round_up_odd_unat: "round_up_odd (unat (n :: 16 word)) = Suc (unat (n AND - 2))"
  using round_up_odd_code [of n] by simp

lemma returning_Inr: "returning v r = (Inr sz, s') \<Longrightarrow> sz = v"
  by (auto simp: returning_def split: prod.splits sum.splits)

lemma dispatch_size:
  assumes "dispatch_polymodel_op st p s (tag_of opc) = (Inr sz, s')"
  shows "\<exists>n. (has_count opc \<longrightarrow> get_op_subcount st p s = Inr n) \<and> sz = record_length opc (unat n)"
proof (cases opc)
  case DefinePoints
  with assms show ?thesis
    by (auto simp: dispatch_polymodel_op_def opcode_defs sizeof_vms_vector_def
        split: sum.splits dest!: returning_Inr)
next
  case FlatPolygon
  with assms show ?thesis
    by (auto simp: dispatch_polymodel_op_def opcode_defs round_up_odd_unat
        split: sum.splits dest!: returning_Inr)
next
  case TexturedPolygon
  with assms show ?thesis
    by (auto simp: dispatch_polymodel_op_def opcode_defs round_up_odd_unat
        split: sum.splits dest!: returning_Inr)
next
  case SortByNormal
  with assms show ?thesis
    by (auto simp: dispatch_polymodel_op_def opcode_defs dest!: returning_Inr)
next
  case RodBitmap
  with assms show ?thesis
    by (auto simp: dispatch_polymodel_op_def opcode_defs dest!: returning_Inr)
next
  case SubmodelCall
  with assms show ?thesis
    by (auto simp: dispatch_polymodel_op_def opcode_defs dest!: returning_Inr)
next
  case DefinePointsWithStart
  with assms show ?thesis
    by (auto simp: dispatch_polymodel_op_def opcode_defs sizeof_vms_vector_def
        split: sum.splits dest!: returning_Inr)
next
  case Glow
  with assms show ?thesis
    by (auto simp: dispatch_polymodel_op_def opcode_defs dest!: returning_Inr)
qed

lemma dispatch_even:
  assumes "dispatch_polymodel_op st p s opc = (Inr sz, s')"
  shows "even sz"
  using assms
  by (auto simp: dispatch_polymodel_op_def sizeof_vms_vector_def
      split: if_splits sum.splits dest!: returning_Inr)

lemma cursor_after_even:
  "even p \<Longrightarrow> cursor_after i st p s = Some (q, s') \<Longrightarrow> even q"
proof (induction i arbitrary: p s)
  case 0
  then show ?case by simp
next
  case (Suc i)
  from Suc.prems(2) obtain op opc s1 sz s2 where
    d: "dispatch_polymodel_op st p s1 opc = (Inr sz, s2)" and
    r: "cursor_after i st (p + int sz) s2 = Some (q, s')"
    by (auto split: sum.splits if_splits prod.splits)
  from d have "even sz" by (rule dispatch_even)
  with Suc.prems(1) have "even (p + int sz)" by simp
  then show ?case using r by (rule Suc.IH)
qed

lemma iterate_even:
  "even p \<Longrightarrow> iterate_polymodel k st p s = (Inr q, s') \<Longrightarrow> even q"
proof (induction k arbitrary: p s)
  case 0
  then show ?case by simp
next
  case (Suc k)
  from Suc.prems(2) consider "q = p"
    | opc s1 sz s2 where "dispatch_polymodel_op st p s1 opc = (Inr sz, s2)"
        "iterate_polymodel k st (p + int sz) s2 = (Inr q, s')"
    by (auto split: sum.splits if_splits prod.splits)
  then show ?case
  proof cases
    case 1
    with Suc.prems(1) show ?thesis by simp
  next
    case 2
    from 2(1) have "even sz" by (rule dispatch_even)
    with Suc.prems(1) have "even (p + int sz)" by simp
    then show ?thesis using 2(2) by (rule Suc.IH)
  qed
qed

lemma cursor_after_iterate:
  "cursor_after i st p s = Some (q, s') \<Longrightarrow>
   iterate_polymodel (i + k) st p s = iterate_polymodel k st q s'"
proof (induction i arbitrary: p s)
  case 0
  then show ?case by simp
next
  case (Suc i)
  then show ?case
    by (auto split: sum.splits if_splits prod.splits)
qed

lemma dispatch_unknown:
  assumes "opc \<notin> {OP_DEFPOINTS, OP_FLATPOLY, OP_TMAPPOLY, OP_SORTNORM, OP_RODBM, OP_SUBCALL,
                   OP_DEFP_START, OP_GLOW}"
    and "op_default st = base_op_default"
  shows "dispatch_polymodel_op st p s opc = (Inl MalformedModel, s)"
  using assms by (simp add: dispatch_polymodel_op_def base_op_default_def returning_def)


subsection \<open>Record lengths\<close>

text \<open>
  C1 (as amended). Whatever the state class, when \<^verbatim>\<open>dispatch_polymodel_op\<close> returns for
  one of the eight record opcodes, the size it returns is \<open>record_length\<close> of the opcode
  and of the count that \<^verbatim>\<open>get_op_subcount\<close> gave: 4 + 12 n for DefinePoints, 8 + 12 n
  for DefinePointsWithStart, 30 + 2 round_up_odd(n) for FlatPolygon, the same plus 12 n for
  TexturedPolygon, and 32, 36, 20 and 4 for SortByNormal, RodBitmap, SubmodelCall and Glow.
  At the tag EndOfStream the loop returns where it stands, and \<^verbatim>\<open>get_chunks\<close> counts two
  bytes for the tag.
\<close>

theorem dispatch_record_length:
  "(dispatch_polymodel_op st p s (tag_of opc) = (Inr sz, s') \<longrightarrow>
      (\<exists>n. (has_count opc \<longrightarrow> get_op_subcount st p s = Inr n) \<and> sz = record_length opc (unat n)))
   \<and> (get_raw_opcode st p s = Inr 0 \<longrightarrow> iterate_polymodel (Suc k) st p s = (Inr p, s))
   \<and> (w (words_bigendian cfg) m data = Some 0 \<longrightarrow>
        get_chunks (Suc k) cfg m data new_data chunk_list = (Inr 2, chunk_list))"
  by (auto dest: dispatch_size
      simp: OP_EOF_def get_chunks_def get_chunks_state_def base_get_raw_opcode_def read_short_def)

text \<open>A flat polygon of three points takes 36 bytes; a stream that is empty takes two.\<close>

theorem dispatch_record_length_witness:
  "dispatch_polymodel_op (get_chunks_state d2_release [2, 0, 3, 0] 0 0) 0 [] (tag_of FlatPolygon)
     = (Inr 36, [])
   \<and> (\<exists>n. get_op_subcount (get_chunks_state d2_release [2, 0, 3, 0] 0 0) 0 [] = Inr n
          \<and> 36 = record_length FlatPolygon (unat n))
   \<and> get_chunks 1 d2_release [0, 0] 0 0 [] = (Inr 2, [])"
proof -
  have h: "dispatch_polymodel_op (get_chunks_state d2_release [2, 0, 3, 0] 0 0) 0 [] (tag_of FlatPolygon)
     = (Inr 36, [])"
    by code_simp
  have e: "w (words_bigendian d2_release) [0, 0] 0 = Some 0"
    by code_simp
  from dispatch_record_length [THEN conjunct1, rule_format, OF h]
    dispatch_record_length [THEN conjunct2, THEN conjunct2, rule_format, OF e, of 0 0 "[]"]
    h
  show ?thesis by simp
qed

text \<open>
  The table of the format description gives 30 + (round_up_odd(3) + 1) * 2 = 38 bytes to
  the flat polygon of three points, for which the code advances by 36.
\<close>

theorem spec_length_counterexample:
  "dispatch_polymodel_op (get_chunks_state d2_release [2, 0, 3, 0] 0 0) 0 [] (tag_of FlatPolygon)
     = (Inr 36, [])
   \<and> spec_length FlatPolygon 3 = 38"
  by code_simp

subsection \<open>Unknown opcodes\<close>

text \<open>
  C3. Whatever the state class that inherits \<^verbatim>\<open>op_default\<close> from
  \<^verbatim>\<open>interpreter_base\<close> (all six do, \<open>op_default_of_states\<close>): when the loop reads an
  opcode that is not EndOfStream and that \<^verbatim>\<open>translate_opcode\<close> turns into none of the
  eight record opcodes, the traversal ends there with the exception
  "invalid polygon model". No length is taken for the record and nothing is read after it.
\<close>

theorem unknown_opcode_malformed:
  assumes "get_raw_opcode st p s = Inr raw"
    and "ucast raw \<noteq> OP_EOF"
    and "translate_opcode st p raw s = (Inr opc, s1)"
    and "opc \<notin> {OP_DEFPOINTS, OP_FLATPOLY, OP_TMAPPOLY, OP_SORTNORM, OP_RODBM, OP_SUBCALL,
                   OP_DEFP_START, OP_GLOW}"
    and "op_default st = base_op_default"
  shows "iterate_polymodel (Suc k) st p s = (Inl MalformedModel, s1)"
  using assms dispatch_unknown [of opc st p s1] by simp

theorem unknown_opcode_malformed_witness:
  "iterate_polymodel (Suc 7) (get_chunks_state d2_release [9, 0, 0, 0] 0 0) 0 [] = (Inl MalformedModel, [])"
proof (rule unknown_opcode_malformed)
  show "get_raw_opcode (get_chunks_state d2_release [9, 0, 0, 0] 0 0) 0 [] = Inr 9"
    by code_simp
  show "ucast (9 :: 16 word) \<noteq> OP_EOF"
    by code_simp
  show "translate_opcode (get_chunks_state d2_release [9, 0, 0, 0] 0 0) 0 9 [] = (Inr 9, [])"
    by code_simp
  show "(9 :: 32 word) \<notin> {OP_DEFPOINTS, OP_FLATPOLY, OP_TMAPPOLY, OP_SORTNORM, OP_RODBM, OP_SUBCALL,
                   OP_DEFP_START, OP_GLOW}"
    by (simp add: opcode_defs)
  show "op_default (get_chunks_state d2_release [9, 0, 0, 0] 0 0) = base_op_default"
    by (simp add: get_chunks_state_def)
qed

subsection \<open>Alignment\<close>

text \<open>
  C10. Every size that \<^verbatim>\<open>dispatch_polymodel_op\<close> returns is even. So when the loop
  starts at an even position, its cursor is at an even position after any number of
  records, and so is the position it returns.
\<close>

theorem record_lengths_even:
  "(dispatch_polymodel_op st p s opc = (Inr sz, s') \<longrightarrow> even sz)
   \<and> (even p \<and> cursor_after i st p s = Some (q, s') \<longrightarrow> even q)
   \<and> (even p \<and> iterate_polymodel k st p s = (Inr q, s') \<longrightarrow> even q)"
proof (intro conjI impI)
  assume "dispatch_polymodel_op st p s opc = (Inr sz, s')"
  then show "even sz" by (rule dispatch_even)
next
  assume "even p \<and> cursor_after i st p s = Some (q, s')"
  then show "even q" using cursor_after_even [of p i st s q s'] by (elim conjE)
next
  assume "even p \<and> iterate_polymodel k st p s = (Inr q, s')"
  then show "even q" using iterate_even [of p k st s q s'] by (elim conjE)
qed

theorem record_lengths_even_witness:
  "cursor_after 1 (get_chunks_state d2_release [8, 0, 5, 0, 0, 0] 0 0) 0 [] = Some (4, [])
   \<and> iterate_polymodel 2 (get_chunks_state d2_release [8, 0, 5, 0, 0, 0] 0 0) 0 [] = (Inr 4, [])
   \<and> even (4 :: int)"
proof -
  have c: "cursor_after 1 (get_chunks_state d2_release [8, 0, 5, 0, 0, 0] 0 0) 0 [] = Some (4, [])"
    by code_simp
  have i: "iterate_polymodel 2 (get_chunks_state d2_release [8, 0, 5, 0, 0, 0] 0 0) 0 [] = (Inr 4, [])"
    by code_simp
  have e: "even (4 :: int)"
    by (rule record_lengths_even [THEN conjunct2, THEN conjunct1, rule_format, OF conjI [OF _ c]])
       simp
  show ?thesis by (rule conjI [OF c conjI [OF i e]])
qed

subsection \<open>The traversal of a well-formed stream\<close>

lemma SWAPSHORT_short_of: "SWAPSHORT (short_of a b) = short_of b a"
  unfolding SWAPSHORT_def short_of_def
  apply (rule bit_word_eqI)
  apply (auto simp: bit_simps dest: bit_imp_le_length)
  done

lemma w_intel: "w False m p = map_option (INTEL_SHORT be) (w be m p)"
  by (simp add: w_def INTEL_SHORT_def SWAPSHORT_short_of)

lemma SWAPSHORT_0: "SWAPSHORT x = 0 \<longleftrightarrow> x = 0"
proof
  assume "SWAPSHORT x = 0"
  then have "SWAPSHORT (SWAPSHORT x) = SWAPSHORT 0" by simp
  moreover have "SWAPSHORT (SWAPSHORT x) = x"
    unfolding SWAPSHORT_def by (rule bit_word_eqI) (auto simp: bit_simps)
  ultimately show "x = 0" by (simp add: SWAPSHORT_def)
qed (simp add: SWAPSHORT_def)

lemma INTEL_SHORT_0: "INTEL_SHORT be x = 0 \<longleftrightarrow> x = 0"
  by (simp add: INTEL_SHORT_def SWAPSHORT_0)

lemma ucast_16_32_eq_0: "(ucast (x :: 16 word) :: 32 word) = 0 \<longleftrightarrow> x = 0"
proof
  assume a: "(ucast x :: 32 word) = 0"
  show "x = 0"
  proof (rule bit_word_eqI)
    fix n assume "n < LENGTH(16)"
    moreover from a have "\<not> bit (ucast x :: 32 word) n" by simp
    ultimately show "bit x n \<longleftrightarrow> bit (0 :: 16 word) n"
      by (simp add: bit_ucast_iff)
  qed
qed simp

lemma tag_of_neq_0: "tag_of opc \<noteq> 0"
  by (cases opc) (simp_all add: opcode_defs)

lemma add_chunk_ok:
  "length cl + 1 < max_chunks cfg \<Longrightarrow>
   add_chunk cfg a b c cl = (Inr (), cl @ [\<lparr>old_base = a, new_base = b, offset = c, correction = 0\<rparr>])"
  by (simp add: add_chunk_def)

lemma get_chunks_dispatch:
  assumes "has_count opc \<longrightarrow> map_option unat (w False m (p + 2)) = Some n"
    and "length cl + chunks_of opc < max_chunks cfg"
  shows "\<exists>cl'. dispatch_polymodel_op (get_chunks_state cfg m data nd) p cl (tag_of opc)
            = (Inr (record_length opc n), cl') \<and> length cl' = length cl + chunks_of opc"
proof (cases opc)
  case DefinePoints
  with assms show ?thesis
    by (auto simp: dispatch_polymodel_op_def get_chunks_state_def opcode_defs GET_INTEL_SHORT_def
        ignore_op_n_def returning_def sizeof_vms_vector_def)
next
  case FlatPolygon
  with assms show ?thesis
    by (auto simp: dispatch_polymodel_op_def get_chunks_state_def opcode_defs GET_INTEL_SHORT_def
        ignore_op_n_def returning_def round_up_odd_unat)
next
  case TexturedPolygon
  with assms show ?thesis
    by (auto simp: dispatch_polymodel_op_def get_chunks_state_def opcode_defs GET_INTEL_SHORT_def
        ignore_op_n_def returning_def round_up_odd_unat)
next
  case SortByNormal
  with assms show ?thesis
    by (simp add: dispatch_polymodel_op_def get_chunks_state_def opcode_defs
        returning_def add_chunk_ok)
next
  case RodBitmap
  with assms show ?thesis
    by (simp add: dispatch_polymodel_op_def get_chunks_state_def opcode_defs
        ignore_op_def returning_def)
next
  case SubmodelCall
  with assms show ?thesis
    by (simp add: dispatch_polymodel_op_def get_chunks_state_def opcode_defs
        returning_def add_chunk_ok)
next
  case DefinePointsWithStart
  with assms show ?thesis
    by (auto simp: dispatch_polymodel_op_def get_chunks_state_def opcode_defs GET_INTEL_SHORT_def
        ignore_op_n_def returning_def sizeof_vms_vector_def)
next
  case Glow
  with assms show ?thesis
    by (simp add: dispatch_polymodel_op_def get_chunks_state_def opcode_defs
        ignore_op_def returning_def)
qed


lemma get_chunks_iterate:
  "well_formed m p recs \<Longrightarrow> length cl + chunk_count recs < max_chunks cfg \<Longrightarrow>
   length recs < fuel \<Longrightarrow>
   \<exists>cl'. iterate_polymodel fuel (get_chunks_state cfg m data nd) p cl
            = (Inr (p + int (stream_length recs)), cl')
         \<and> w False m (p + int (stream_length recs)) = Some 0"
proof (induction recs arbitrary: p cl fuel)
  case Nil
  then obtain k where k: "fuel = Suc k" by (cases fuel) auto
  from Nil.prems(1) have e: "w False m p = Some 0" by simp
  then have "w (words_bigendian cfg) m p = Some 0"
    by (auto simp: w_intel [of m p "words_bigendian cfg"] INTEL_SHORT_0)
  with e show ?case
    by (simp add: k get_chunks_state_def base_get_raw_opcode_def read_short_def OP_EOF_def
        stream_length_def)
next
  case (Cons r recs)
  obtain opc n where r: "r = (opc, n)" by (cases r)
  from Cons.prems(3) obtain k where k: "fuel = Suc k" and kl: "length recs < k"
    by (cases fuel) auto
  from Cons.prems(1) r obtain t where
    t: "w False m p = Some t" "ucast t = tag_of opc" and
    c: "has_count opc \<longrightarrow> map_option unat (w False m (p + 2)) = Some n" and
    wf: "well_formed m (p + int (record_length opc n)) recs"
    by auto
  from t(1) obtain raw where
    raw: "w (words_bigendian cfg) m p = Some raw" "INTEL_SHORT (words_bigendian cfg) raw = t"
    by (auto simp: w_intel [of m p "words_bigendian cfg"])
  from t(2) have "t \<noteq> 0" using tag_of_neq_0 [of opc] by auto
  with raw(2) have raw0: "raw \<noteq> 0" by (auto simp: INTEL_SHORT_0)
  from Cons.prems(2) r have cap: "length cl + chunks_of opc < max_chunks cfg"
    by (simp add: chunk_count_def)
  from get_chunks_dispatch [OF c cap, of data nd] obtain cl1 where
    d: "dispatch_polymodel_op (get_chunks_state cfg m data nd) p cl (tag_of opc)
          = (Inr (record_length opc n), cl1)" and
    l: "length cl1 = length cl + chunks_of opc"
    by blast
  from Cons.prems(2) r l have cap': "length cl1 + chunk_count recs < max_chunks cfg"
    by (simp add: chunk_count_def)
  from Cons.IH [OF wf cap' kl] obtain cl' where
    ih: "iterate_polymodel k (get_chunks_state cfg m data nd) (p + int (record_length opc n)) cl1
           = (Inr (p + int (record_length opc n) + int (stream_length recs)), cl')"
        "w False m (p + int (record_length opc n) + int (stream_length recs)) = Some 0"
    by blast
  have sl: "stream_length (r # recs) = record_length opc n + stream_length recs"
    by (simp add: stream_length_def r)
  have step: "iterate_polymodel (Suc k) (get_chunks_state cfg m data nd) p cl
      = iterate_polymodel k (get_chunks_state cfg m data nd) (p + int (record_length opc n)) cl1"
  proof -
    have g: "get_raw_opcode (get_chunks_state cfg m data nd) p cl = Inr raw"
      using raw(1) by (simp add: get_chunks_state_def base_get_raw_opcode_def read_short_def)
    have u: "(ucast raw :: 32 word) \<noteq> OP_EOF"
      using raw0 by (simp add: OP_EOF_def ucast_16_32_eq_0)
    have tr: "translate_opcode (get_chunks_state cfg m data nd) p raw cl = (Inr (tag_of opc), cl)"
      using raw(2) t(2) by (simp add: get_chunks_state_def)
    show ?thesis using g u tr d by simp
  qed
  show ?case unfolding k step sl using ih by (auto simp: add.assoc)
qed

text \<open>
  C2. On a well-formed stream (records of known opcodes, then EndOfStream) the loop of
  \<^verbatim>\<open>get_chunks\<close> returns: its cursor stands at the start plus the sum of the record
  lengths, the tag there is EndOfStream, and \<^verbatim>\<open>get_chunks\<close> returns that sum plus the
  two bytes of the tag. The fuel must exceed the number of records, and the chunk list
  must have room for the chunks.
\<close>

theorem well_formed_traversal:
  assumes "well_formed m data recs"
    and "length chunk_list + chunk_count recs < max_chunks cfg"
    and "length recs < fuel"
  shows "\<exists>cl. iterate_polymodel fuel (get_chunks_state cfg m data new_data) data chunk_list
            = (Inr (data + int (stream_length recs)), cl)
         \<and> get_chunks fuel cfg m data new_data chunk_list = (Inr (int (stream_length recs) + 2), cl)
         \<and> w (words_bigendian cfg) m (data + int (stream_length recs)) = Some 0"
proof -
  from get_chunks_iterate [OF assms, of data new_data] obtain cl where
    i: "iterate_polymodel fuel (get_chunks_state cfg m data new_data) data chunk_list
          = (Inr (data + int (stream_length recs)), cl)" and
    e: "w False m (data + int (stream_length recs)) = Some 0"
    by (elim exE conjE)
  from e have "w (words_bigendian cfg) m (data + int (stream_length recs)) = Some 0"
    by (auto simp: w_intel [of m _ "words_bigendian cfg"] INTEL_SHORT_0)
  moreover from i have "get_chunks fuel cfg m data new_data chunk_list
      = (Inr (int (stream_length recs) + 2), cl)"
    by (simp add: get_chunks_def)
  ultimately show ?thesis using i by (intro exI [of _ cl] conjI)
qed

theorem well_formed_traversal_witness:
  "well_formed chunk_buf 0 [(Glow, 0), (SubmodelCall, 0), (DefinePoints, 1)]
   \<and> stream_length [(Glow, 0), (SubmodelCall, 0), (DefinePoints, 1)] = 40
   \<and> (\<exists>cl. get_chunks 4 d2_release chunk_buf 0 100 [] = (Inr 42, cl))
   \<and> w False chunk_buf 40 = Some 0"
proof -
  have wf: "well_formed chunk_buf 0 [(Glow, 0), (SubmodelCall, 0), (DefinePoints, 1)]"
    by code_simp
  have cap: "length ([] :: chunk list) + chunk_count [(Glow, 0), (SubmodelCall, 0), (DefinePoints, 1)]
      < max_chunks d2_release"
    by code_simp
  have fl: "length [(Glow, 0 :: nat), (SubmodelCall, 0), (DefinePoints, 1)] < 4"
    by simp
  have sl: "stream_length [(Glow, 0), (SubmodelCall, 0), (DefinePoints, 1)] = 40"
    by code_simp
  have be: "words_bigendian d2_release = False"
    by (simp add: d2_release_def)
  from well_formed_traversal [OF wf cap fl, of 100] obtain cl where
    g: "get_chunks 4 d2_release chunk_buf 0 100 []
          = (Inr (int (stream_length [(Glow, 0), (SubmodelCall, 0), (DefinePoints, 1)]) + 2), cl)" and
    e: "w (words_bigendian d2_release) chunk_buf
          (0 + int (stream_length [(Glow, 0), (SubmodelCall, 0), (DefinePoints, 1)])) = Some 0"
    by (elim exE conjE)
  from g have g': "\<exists>cl. get_chunks 4 d2_release chunk_buf 0 100 [] = (Inr 42, cl)"
    unfolding sl by (intro exI [of _ cl]) simp
  from e have e': "w False chunk_buf 40 = Some 0"
    unfolding sl be by simp
  show ?thesis by (rule conjI [OF wf conjI [OF sl conjI [OF g' e']]])
qed

subsection \<open>Polygons with too many points\<close>

lemma static_op_flatpoly_skip:
  "nv > max_points_per_poly cfg \<Longrightarrow> static_op_flatpoly cfg lib gv m p nv s = (Inr (), s)"
  by (cases s) simp

lemma static_op_tmappoly_skip:
  "nv > max_points_per_poly cfg \<Longrightarrow> static_op_tmappoly cfg lib args gv m p nv s = (Inr (), s)"
  by (cases s) simp

lemma morph_op_tmappoly_skip:
  "nv > max_points_per_poly cfg \<Longrightarrow> morph_op_tmappoly cfg lib args m p nv sc = (Inr (), sc)"
  by (simp add: morph_op_tmappoly_def)

lemma morph_op_flatpoly_no_limit:
  "morph_op_flatpoly cfg m p nv sc = morph_op_flatpoly (cfg\<lparr>max_points_per_poly := k\<rparr>) m p nv sc"
proof -
  have e: "words_bigendian (cfg\<lparr>max_points_per_poly := k\<rparr>) = words_bigendian cfg"
    by simp
  show ?thesis unfolding morph_op_flatpoly_def e ..
qed

lemma those_nth:
  "those xs = Some ys \<Longrightarrow> length ys = length xs \<and> (\<forall>j < length xs. xs ! j = Some (ys ! j))"
proof (induction xs arbitrary: ys)
  case Nil
  then show ?case by simp
next
  case (Cons x xs)
  from Cons.prems obtain y zs where x: "x = Some y" and zs: "those xs = Some zs" and
    ys: "ys = y # zs"
    by (auto split: option.splits)
  from Cons.IH [OF zs] show ?case
    unfolding x ys by (auto simp: nth_Cons split: nat.splits)
qed

lemma those_points:
  assumes "those (map (point_at be m pts p) [0..<nv]) = Some ps"
  shows "length ps = nv" and "\<And>j. j < nv \<Longrightarrow> point_at be m pts p j = Some (ps ! j)"
  using those_nth [OF assms] by auto

lemma morph_fan_draws:
  assumes "\<And>j. j < nv \<Longrightarrow> point_at be m pts p j = Some (ps ! j)"
  shows "j + k + 2 = nv \<Longrightarrow>
    morph_fan be m pts p color (int k) (Suc (Suc j)) (ps ! 0) (ps ! Suc j) cv
    = (Inr (), cv @ map (\<lambda>j. G3_check_and_draw_poly [ps ! 0, ps ! Suc j, ps ! Suc (Suc j)] color)
                      [j..<j + k])"
proof (induction k arbitrary: j cv)
  case 0
  show ?case by (subst morph_fan.simps) simp
next
  case (Suc k)
  from Suc.prems have pt: "point_at be m pts p (Suc (Suc j)) = Some (ps ! Suc (Suc j))"
    by (intro assms) simp
  from Suc.prems have n: "Suc j + k + 2 = nv" by simp
  have u: "[j..<j + Suc k] = j # [Suc j..<Suc j + k]"
    by (simp add: upt_conv_Cons)
  have "morph_fan be m pts p color (int (Suc k)) (Suc (Suc j)) (ps ! 0) (ps ! Suc j) cv
      = morph_fan be m pts p color (int k) (Suc (Suc (Suc j))) (ps ! 0) (ps ! Suc (Suc j))
          (cv @ [G3_check_and_draw_poly [ps ! 0, ps ! Suc j, ps ! Suc (Suc j)] color])"
    by (subst morph_fan.simps) (simp add: pt del: morph_fan.simps)
  also have "\<dots> = (Inr (), (cv @ [G3_check_and_draw_poly [ps ! 0, ps ! Suc j, ps ! Suc (Suc j)] color])
        @ map (\<lambda>j. G3_check_and_draw_poly [ps ! 0, ps ! Suc j, ps ! Suc (Suc j)] color)
            [Suc j..<Suc j + k])"
    by (rule Suc.IH [OF n])
  finally show ?case unfolding u by simp
qed

lemma morph_op_flatpoly_fan:
  assumes c: "w (words_bigendian cfg) m (p + 28) = Some c"
    and ps: "those (map (point_at (words_bigendian cfg) m (interp_point_list sc) p) [0..<nv]) = Some ps"
    and nv: "2 \<le> nv"
  shows "morph_op_flatpoly cfg m p nv sc
       = (Inr (), sc\<lparr>canvas := canvas sc @ triangle_fan ps (ucast c)\<rparr>)"
proof -
  let ?be = "words_bigendian cfg"
  let ?pts = "interp_point_list sc"
  note pt = those_points [OF ps]
  from nv obtain k where k: "nv = k + 2" by (metis add.commute le_Suc_ex)
  have "[0..<2] = [0, Suc 0]" by (simp add: upt_rec)
  then have pl: "prepare_point_list ?be m ?pts 3 2 p = Some [ps ! 0, ps ! Suc 0]"
    using pt(2) [of 0] pt(2) [of "Suc 0"] nv by (simp add: prepare_point_list_def)
  have "0 + k + 2 = nv" using k by simp
  from morph_fan_draws [of nv ?be m ?pts p ps 0 k "ucast c" "canvas sc", OF pt(2) this]
  have f: "morph_fan ?be m ?pts p (ucast c) (int nv - 2) 2 (ps ! 0) (ps ! Suc 0) (canvas sc)
      = (Inr (), canvas sc @ triangle_fan ps (ucast c))"
    using k pt(1) by (simp add: triangle_fan_def numeral_2_eq_2 del: morph_fan.simps)
  show ?thesis
    unfolding morph_op_flatpoly_def c pl by (simp add: f del: morph_fan.simps)
qed

lemma length_triangle_fan: "length (triangle_fan ps color) = length ps - 2"
  by (simp add: triangle_fan_def)

text \<open>
  C4 (as amended). A FlatPolygon or TexturedPolygon record whose vertex count is above
  \<^verbatim>\<open>MAX_POINTS_PER_POLY\<close> is skipped by \<^verbatim>\<open>g3_draw_polygon_model\<close>: nothing is drawn,
  nothing fails, the state is as before, and the loop advances by the full length of the
  record. \<^verbatim>\<open>g3_draw_morphing_model\<close> skips such a TexturedPolygon in the same way. For
  a FlatPolygon it has no limit: the result does not depend on \<^verbatim>\<open>MAX_POINTS_PER_POLY\<close>,
  and when the colour and the \<open>nv\<close> point numbers of the record can be read (\<open>ps\<close> are the
  points they name) it draws the triangle fan over all of them, \<open>nv - 2\<close> triangles in the
  order of the fan, each with the colour of the record, and the loop advances by the full
  length of the record.
\<close>

theorem oversized_polygons:
  assumes "w (words_bigendian cfg) m (p + 2) = Some n"
    and "unat n > max_points_per_poly cfg"
  shows
    "dispatch_polymodel_op (g3_draw_polygon_model_state cfg lib args glow_values m nested) p s
        OP_FLATPOLY = (Inr (record_length FlatPolygon (unat n)), s)
     \<and> dispatch_polymodel_op (g3_draw_polygon_model_state cfg lib args glow_values m nested) p s
        OP_TMAPPOLY = (Inr (record_length TexturedPolygon (unat n)), s)
     \<and> dispatch_polymodel_op
          (g3_draw_morphing_model_state cfg lib args new_points m nested_morph nested_draw) p sc
        OP_TMAPPOLY = (Inr (record_length TexturedPolygon (unat n)), sc)
     \<and> dispatch_polymodel_op
          (g3_draw_morphing_model_state cfg lib args new_points m nested_morph nested_draw) p sc
        OP_FLATPOLY
        = returning (record_length FlatPolygon (unat n)) (morph_op_flatpoly cfg m p (unat n) sc)
     \<and> morph_op_flatpoly cfg m p (unat n) sc
        = morph_op_flatpoly (cfg\<lparr>max_points_per_poly := k\<rparr>) m p (unat n) sc
     \<and> (w (words_bigendian cfg) m (p + 28) = Some c
          \<and> those (map (point_at (words_bigendian cfg) m (interp_point_list sc) p) [0..<unat n])
              = Some ps
          \<and> 2 \<le> unat n
        \<longrightarrow> dispatch_polymodel_op
              (g3_draw_morphing_model_state cfg lib args new_points m nested_morph nested_draw) p sc
              OP_FLATPOLY
            = (Inr (record_length FlatPolygon (unat n)),
               sc\<lparr>canvas := canvas sc @ triangle_fan ps (ucast c)\<rparr>)
          \<and> length (triangle_fan ps (ucast c) :: ('c, 'd) g3_call list) = unat n - 2)"
proof -
  have d: "dispatch_polymodel_op
          (g3_draw_morphing_model_state cfg lib args new_points m nested_morph nested_draw) p sc
        OP_FLATPOLY
        = returning (record_length FlatPolygon (unat n)) (morph_op_flatpoly cfg m p (unat n) sc)"
    using assms
    by (simp add: dispatch_polymodel_op_def opcode_defs g3_draw_morphing_model_state_def
        base_get_op_subcount_def read_short_def round_up_odd_unat)
  have fan: "w (words_bigendian cfg) m (p + 28) = Some c
          \<and> those (map (point_at (words_bigendian cfg) m (interp_point_list sc) p) [0..<unat n])
              = Some ps
          \<and> 2 \<le> unat n
        \<longrightarrow> dispatch_polymodel_op
              (g3_draw_morphing_model_state cfg lib args new_points m nested_morph nested_draw) p sc
              OP_FLATPOLY
            = (Inr (record_length FlatPolygon (unat n)),
               sc\<lparr>canvas := canvas sc @ triangle_fan ps (ucast c)\<rparr>)
          \<and> length (triangle_fan ps (ucast c) :: ('c, 'd) g3_call list) = unat n - 2"
  proof (intro impI, elim conjE)
    assume c: "w (words_bigendian cfg) m (p + 28) = Some c"
      and ps: "those (map (point_at (words_bigendian cfg) m (interp_point_list sc) p) [0..<unat n])
              = Some ps"
      and nv: "2 \<le> unat n"
    have l: "length ps = unat n" by (rule those_points(1) [OF ps])
    show "dispatch_polymodel_op
              (g3_draw_morphing_model_state cfg lib args new_points m nested_morph nested_draw) p sc
              OP_FLATPOLY
            = (Inr (record_length FlatPolygon (unat n)),
               sc\<lparr>canvas := canvas sc @ triangle_fan ps (ucast c)\<rparr>)
          \<and> length (triangle_fan ps (ucast c) :: ('c, 'd) g3_call list) = unat n - 2"
      unfolding d morph_op_flatpoly_fan [OF c ps nv]
      by (simp add: returning_def length_triangle_fan l)
  qed
  have rest: "dispatch_polymodel_op (g3_draw_polygon_model_state cfg lib args glow_values m nested) p s
        OP_FLATPOLY = (Inr (record_length FlatPolygon (unat n)), s)
     \<and> dispatch_polymodel_op (g3_draw_polygon_model_state cfg lib args glow_values m nested) p s
        OP_TMAPPOLY = (Inr (record_length TexturedPolygon (unat n)), s)
     \<and> dispatch_polymodel_op
          (g3_draw_morphing_model_state cfg lib args new_points m nested_morph nested_draw) p sc
        OP_TMAPPOLY = (Inr (record_length TexturedPolygon (unat n)), sc)"
    using assms
    by (simp add: dispatch_polymodel_op_def opcode_defs g3_draw_polygon_model_state_def
        g3_draw_morphing_model_state_def base_get_op_subcount_def read_short_def returning_def
        static_op_flatpoly_skip static_op_tmappoly_skip morph_op_tmappoly_skip round_up_odd_unat)
  from rest d morph_op_flatpoly_no_limit [of cfg m p "unat n" sc k] fan
  show ?thesis by (intro conjI) (elim conjE, assumption)+
qed

theorem oversized_polygons_witness:
  "w False flat40 2 = Some 40 \<and> max_points_per_poly d2_release < 40
   \<and> dispatch_polymodel_op
        (g3_draw_polygon_model_state d2_release plain_lib plain_args None flat40 no_sub)
        0 (plain_scene, - 1) OP_FLATPOLY
      = (Inr 112, (plain_scene, - 1))
   \<and> w False flat40 28 = Some 7
   \<and> those (map (point_at False flat40 [0 :: nat] 0) [0..<40]) = Some (replicate 40 0)
   \<and> dispatch_polymodel_op
        (g3_draw_morphing_model_state d2_release plain_lib plain_args [] flat40 no_sub no_sub)
        0 plain_scene OP_FLATPOLY
      = (Inr 112, plain_scene\<lparr>canvas := replicate 38 (G3_check_and_draw_poly [0, 0, 0] 7)\<rparr>)"
proof -
  have a: "w (words_bigendian d2_release) flat40 (0 + 2) = Some 40"
    by code_simp
  have b: "max_points_per_poly d2_release < unat (40 :: 16 word)"
    by code_simp
  have l: "record_length FlatPolygon (unat (40 :: 16 word)) = 112"
    by code_simp
  have a': "w False flat40 2 = Some 40"
    by code_simp
  have b': "max_points_per_poly d2_release < 40"
    by code_simp
  have c: "w (words_bigendian d2_release) flat40 (0 + 28) = Some 7"
    by code_simp
  have ps: "those (map (point_at (words_bigendian d2_release) flat40 (interp_point_list plain_scene) 0)
                    [0..<unat (40 :: 16 word)]) = Some (replicate 40 0)"
    by code_simp
  have nv: "2 \<le> unat (40 :: 16 word)"
    by code_simp
  have c': "w False flat40 28 = Some 7"
    by code_simp
  have ps': "those (map (point_at False flat40 [0 :: nat] 0) [0..<40]) = Some (replicate 40 0)"
    by code_simp
  have fan: "plain_scene\<lparr>canvas := canvas plain_scene
                @ triangle_fan (replicate 40 0) (ucast (7 :: 16 word))\<rparr>
           = plain_scene\<lparr>canvas := replicate 38 (G3_check_and_draw_poly [0, 0, 0] 7)\<rparr>"
    by code_simp
  from oversized_polygons [OF a b, THEN conjunct1, of plain_lib plain_args None no_sub
      "(plain_scene, - 1)"]
  have s: "dispatch_polymodel_op
        (g3_draw_polygon_model_state d2_release plain_lib plain_args None flat40 no_sub)
        0 (plain_scene, - 1) OP_FLATPOLY
      = (Inr 112, (plain_scene, - 1))"
    unfolding l .
  have "dispatch_polymodel_op
        (g3_draw_morphing_model_state d2_release plain_lib plain_args [] flat40 no_sub no_sub)
        0 plain_scene OP_FLATPOLY
      = (Inr (record_length FlatPolygon (unat (40 :: 16 word))),
         plain_scene\<lparr>canvas := canvas plain_scene
            @ triangle_fan (replicate 40 0) (ucast (7 :: 16 word))\<rparr>)"
    by (rule oversized_polygons [OF a b, THEN conjunct2, THEN conjunct2, THEN conjunct2,
          THEN conjunct2, THEN conjunct2, THEN mp, OF conjI [OF c conjI [OF ps nv]],
          THEN conjunct1])
  then have f: "dispatch_polymodel_op
        (g3_draw_morphing_model_state d2_release plain_lib plain_args [] flat40 no_sub no_sub)
        0 plain_scene OP_FLATPOLY
      = (Inr 112, plain_scene\<lparr>canvas := replicate 38 (G3_check_and_draw_poly [0, 0, 0] 7)\<rparr>)"
    unfolding l fan .
  from a' b' s c' ps' f show ?thesis by (intro conjI)
qed

text \<open>
  The morphing interpreter draws the flat polygon of 40 points, above the limit of 25, as
  38 triangles.
\<close>

theorem morph_flat_polygon_counterexample:
  "max_points_per_poly d2_release < 40
   \<and> w False flat40 2 = Some 40
   \<and> (case g3_draw_morphing_model 2 d2_release plain_lib plain_args [] flat40 0 plain_scene of
        (r, sc) \<Rightarrow> r = Inr () \<and> length (canvas sc) = 38)"
  by code_simp

subsection \<open>The facing test of a flat polygon\<close>

text \<open>
  C9 (as amended). For a FlatPolygon record whose vertex count is at most
  \<^verbatim>\<open>MAX_POINTS_PER_POLY\<close> (and whose fields can be read), \<^verbatim>\<open>g3_poly_get_color\<close> and
  \<^verbatim>\<open>g3_draw_polygon_model\<close> apply the same test
  \<^verbatim>\<open>g3_check_normal_facing(*vp(p+4), *vp(p+16)) > 0\<close>. The first takes the colour of the
  polygon exactly when the test holds. The second draws the polygon exactly when the test
  holds and, in the Descent 2 build, the glow value in force is not -3 (a hidden
  surface). Both leave their state as it is when the test fails.
\<close>

theorem flat_polygon_facing:
  assumes "nv \<le> max_points_per_poly cfg"
    and "vp (words_bigendian cfg) m (p + 4) = Some v"
    and "vp (words_bigendian cfg) m (p + 16) = Some norm"
    and "w (words_bigendian cfg) m (p + 28) = Some c"
    and "prepare_point_list (words_bigendian cfg) m (interp_point_list sc)
           (max_points_per_poly cfg) nv p = Some point_list"
  shows
    "get_color_op_flatpoly cfg lib (g3_globals sc) m p nv color =
       (Inr (), if g3_check_normal_facing lib (g3_globals sc) v norm > 0
                then (if build_descent_i cfg then sint c
                      else gr_find_closest_color_15bpp lib (sint c))
                else color)
     \<and> static_op_flatpoly cfg lib glow_values m p nv (sc, glow_num) =
       (Inr (), if g3_check_normal_facing lib (g3_globals sc) v norm > 0
                   \<and> (build_descent_i cfg \<or> glow_value glow_values glow_num \<noteq> Some (- 3))
                then (sc\<lparr>canvas := canvas sc @
                        [G3_draw_poly nv point_list
                           (if build_descent_i cfg then ucast c
                            else if glow_value glow_values glow_num = Some (- 2) then 255
                            else word_of_int (gr_find_closest_color_15bpp lib (sint c)))]\<rparr>,
                      glow_num)
                else (sc, glow_num))"
  using assms by (simp add: get_color_op_flatpoly_def facing_def)

theorem flat_polygon_facing_witness:
  "get_color_op_flatpoly d2_release plain_lib () flat3 0 3 0 = (Inr (), 7)
   \<and> static_op_flatpoly d2_release plain_lib None flat3 0 3 (plain_scene, - 1)
       = (Inr (), (plain_scene\<lparr>canvas := [G3_draw_poly 3 [0, 0, 0] 7]\<rparr>, - 1))"
proof -
  have h1: "3 \<le> max_points_per_poly d2_release"
    by code_simp
  have h2: "vp (words_bigendian d2_release) flat3 (0 + 4) = Some (0, 0, 0)"
    by code_simp
  have h3: "vp (words_bigendian d2_release) flat3 (0 + 16) = Some (1, 0, 0)"
    by code_simp
  have h4: "w (words_bigendian d2_release) flat3 (0 + 28) = Some 7"
    by code_simp
  have h5: "prepare_point_list (words_bigendian d2_release) flat3 (interp_point_list plain_scene)
              (max_points_per_poly d2_release) 3 0 = Some [0, 0, 0]"
    by code_simp
  have g: "g3_globals plain_scene = ()"
    by simp
  have r1: "(if g3_check_normal_facing plain_lib () (0, 0, 0) (1, 0, 0) > 0
             then (if build_descent_i d2_release then sint (7 :: 16 word)
                   else gr_find_closest_color_15bpp plain_lib (sint (7 :: 16 word)))
             else 0) = 7"
    by code_simp
  have r2: "(if g3_check_normal_facing plain_lib () (0, 0, 0) (1, 0, 0) > 0
               \<and> (build_descent_i d2_release \<or> glow_value None (- 1) \<noteq> Some (- 3))
             then (plain_scene\<lparr>canvas := canvas plain_scene @
                     [G3_draw_poly 3 [0, 0, 0]
                        (if build_descent_i d2_release then ucast (7 :: 16 word)
                         else if glow_value None (- 1) = Some (- 2) then 255
                         else word_of_int (gr_find_closest_color_15bpp plain_lib (sint (7 :: 16 word))))]\<rparr>,
                   - 1 :: 32 word)
             else (plain_scene, - 1))
            = (plain_scene\<lparr>canvas := [G3_draw_poly 3 [0, 0, 0] 7]\<rparr>, - 1)"
    by code_simp
  from flat_polygon_facing [OF h1 h2 h3 h4 h5, of plain_lib 0 None "- 1"]
  show ?thesis unfolding g r1 r2 .
qed

text \<open>
  With a normal that faces the viewer, neither interpreter acts on the polygon of 40
  points; and behind a glow record whose value is -3, the colour of the polygon of three
  points is taken and the polygon is not drawn.
\<close>

theorem flat_polygon_facing_counterexample:
  "vp False flat40 4 = Some (0, 0, 0) \<and> vp False flat40 16 = Some (1, 0, 0)
   \<and> g3_check_normal_facing plain_lib () (0, 0, 0) (1, 0, 0) > 0
   \<and> g3_poly_get_color 2 d2_release plain_lib () flat40 0 = Inr 0
   \<and> g3_draw_polygon_model 2 d2_release plain_lib plain_args None flat40 0 plain_scene
       = (Inr (), plain_scene)
   \<and> g3_poly_get_color 3 d2_release plain_lib () glow_flat 0 = Inr 7
   \<and> g3_draw_polygon_model 3 d2_release plain_lib plain_args (Some [- 3]) glow_flat 0 plain_scene
       = (Inr (), plain_scene)"
  by code_simp

subsection \<open>A sub-model outside the buffer\<close>

lemma iterate_read_fails:
  "get_raw_opcode st q s = Inl e \<Longrightarrow> iterate_polymodel (Suc k) st q s = (Inl e, s)"
  by simp

lemma w_outside: "\<not> in_buffer m q 2 \<Longrightarrow> w be m q = None"
  by (simp add: w_def)

lemma init_model_sub_outside:
  assumes "\<not> in_buffer m q 2" and "ndebug cfg \<or> nest + 1 < 1000"
  shows "init_model_sub (Suc k) cfg lib q h (m, nest)
           = (Inl OutOfBounds, (m, if ndebug cfg then nest else nest + 1))"
  using assms
  by (auto simp: Let_def Assert_def init_model_sub_state_def read_short_def w_outside)

lemma draw_polygon_model_outside:
  assumes "\<not> in_buffer m q 2"
  shows "g3_draw_polygon_model (Suc k) cfg lib args gv m q sc = (Inl OutOfBounds, sc)"
  using assms
  by (simp add: g3_draw_polygon_model_state_def base_get_raw_opcode_def read_short_def w_outside)

lemma draw_op_subcall_outside:
  assumes "w be m (p + 16) = Some off" and "\<not> in_buffer m (p + sint off) 2"
  shows "fst (draw_op_subcall lib args be m (g3_draw_polygon_model (Suc k) cfg lib args gv m) p sc)
           = Inl OutOfBounds"
  using assms(1)
  by (auto simp: draw_op_subcall_def draw_polygon_model_outside [OF assms(2)]
      simp del: g3_draw_polygon_model.simps split: option.splits)

lemma init_op_subcall_outside:
  assumes "w (words_bigendian cfg) (model_data s) (p + 16) = Some off"
    and "\<not> in_buffer (model_data s) (p + sint off) 2"
    and "ndebug cfg \<or> nest_count s + 1 < 1000"
  shows "fst (init_op_subcall cfg (init_model_sub (Suc k) cfg lib) p s) = Inl OutOfBounds"
  using assms(1)
  by (simp add: init_op_subcall_def init_call_def init_model_sub_outside [OF assms(2,3)]
      del: init_model_sub.simps)

text \<open>
  C5 (as amended). When the offset of a SubmodelCall record leads to a position where no
  opcode can be read inside the buffer, the interpreters that follow the call
  (\<^verbatim>\<open>g3_init_polygon_model\<close>, \<^verbatim>\<open>g3_draw_polygon_model\<close>,
  \<^verbatim>\<open>g3_draw_morphing_model\<close>) do not throw "invalid polygon model": they check no bound,
  enter the loop at that position and read outside the buffer, the outcome
  \<open>OutOfBounds\<close>. (In a build without NDEBUG the count of nested calls must stay below
  1000 for the call to be made.)
\<close>

theorem subcall_outside_buffer:
  assumes "w (words_bigendian cfg) m p = Some 6"
    and "w (words_bigendian cfg) m (p + 16) = Some off"
    and "\<not> in_buffer m (p + sint off) 2"
    and "ndebug cfg \<or> nest + 2 < 1000"
  shows "fst (init_model_sub (Suc (Suc k)) cfg lib p h (m, nest)) = Inl OutOfBounds
       \<and> fst (g3_draw_polygon_model (Suc (Suc k)) cfg lib args glow_values m p sc) = Inl OutOfBounds
       \<and> fst (g3_draw_morphing_model (Suc (Suc k)) cfg lib args new_points m p sc) = Inl OutOfBounds"
proof (intro conjI)
  let ?s = "\<lparr>highest_texture_num = h, model_data = m,
             nest_count = (if ndebug cfg then nest else nest + 1)\<rparr>"
  have "fst (init_op_subcall cfg (init_model_sub (Suc k) cfg lib) p ?s) = Inl OutOfBounds"
    using assms by (intro init_op_subcall_outside [where off = off]) auto
  then obtain s' where
    "init_op_subcall cfg (init_model_sub (Suc k) cfg lib) p ?s = (Inl OutOfBounds, s')"
    by (cases "init_op_subcall cfg (init_model_sub (Suc k) cfg lib) p ?s") auto
  then have "dispatch_polymodel_op (init_model_sub_state cfg lib (init_model_sub (Suc k) cfg lib))
      p ?s OP_SUBCALL = (Inl OutOfBounds, s')"
    by (simp add: dispatch_polymodel_op_def opcode_defs init_model_sub_state_def returning_def
        del: init_model_sub.simps)
  then show "fst (init_model_sub (Suc (Suc k)) cfg lib p h (m, nest)) = Inl OutOfBounds"
    using assms(1,4)
    unfolding init_model_sub.simps(2) [of "Suc k"]
    by (auto simp: Let_def Assert_def init_model_sub_state_def read_short_def opcode_defs
        base_translate_opcode_def simp del: init_model_sub.simps)
next
  let ?nested = "g3_draw_polygon_model (Suc k) cfg lib args glow_values m"
  have "fst (draw_op_subcall lib args (words_bigendian cfg) m ?nested p sc) = Inl OutOfBounds"
    using assms(2,3) by (rule draw_op_subcall_outside)
  then obtain sc' where
    "draw_op_subcall lib args (words_bigendian cfg) m ?nested p sc = (Inl OutOfBounds, sc')"
    by (cases "draw_op_subcall lib args (words_bigendian cfg) m ?nested p sc") auto
  then have "dispatch_polymodel_op (g3_draw_polygon_model_state cfg lib args glow_values m ?nested)
      p (sc, - 1) OP_SUBCALL = (Inl OutOfBounds, (sc', - 1))"
    by (simp add: dispatch_polymodel_op_def opcode_defs g3_draw_polygon_model_state_def
        returning_def on_scene_def del: g3_draw_polygon_model.simps)
  then show "fst (g3_draw_polygon_model (Suc (Suc k)) cfg lib args glow_values m p sc)
      = Inl OutOfBounds"
    using assms(1)
    unfolding g3_draw_polygon_model.simps(2) [of "Suc k"]
    by (simp add: g3_draw_polygon_model_state_def base_get_raw_opcode_def read_short_def
        opcode_defs base_translate_opcode_def del: g3_draw_polygon_model.simps)
next
  let ?nested = "g3_draw_polygon_model (Suc k) cfg lib args None m"
  let ?morph = "g3_draw_morphing_model (Suc k) cfg lib args new_points m"
  have "fst (draw_op_subcall lib args (words_bigendian cfg) m ?nested p sc) = Inl OutOfBounds"
    using assms(2,3) by (rule draw_op_subcall_outside)
  then obtain sc' where
    "draw_op_subcall lib args (words_bigendian cfg) m ?nested p sc = (Inl OutOfBounds, sc')"
    by (cases "draw_op_subcall lib args (words_bigendian cfg) m ?nested p sc") auto
  then have "dispatch_polymodel_op
      (g3_draw_morphing_model_state cfg lib args new_points m ?morph ?nested)
      p sc OP_SUBCALL = (Inl OutOfBounds, sc')"
    by (simp add: dispatch_polymodel_op_def opcode_defs g3_draw_morphing_model_state_def
        returning_def del: g3_draw_polygon_model.simps g3_draw_morphing_model.simps)
  then show "fst (g3_draw_morphing_model (Suc (Suc k)) cfg lib args new_points m p sc)
      = Inl OutOfBounds"
    using assms(1)
    unfolding g3_draw_morphing_model.simps(2) [of "Suc k"]
    by (simp add: g3_draw_morphing_model_state_def base_get_raw_opcode_def read_short_def
        opcode_defs base_translate_opcode_def returning_def
        del: g3_draw_polygon_model.simps g3_draw_morphing_model.simps)
qed

theorem subcall_outside_buffer_witness:
  "w False sub_buf 16 = Some 1000 \<and> length sub_buf = 22
   \<and> fst (init_model_sub (Suc (Suc 0)) d2_release plain_lib 0 (- 1) (sub_buf, 0)) = Inl OutOfBounds
   \<and> fst (g3_draw_polygon_model (Suc (Suc 0)) d2_release plain_lib plain_args None sub_buf 0
            plain_scene) = Inl OutOfBounds
   \<and> fst (g3_draw_morphing_model (Suc (Suc 0)) d2_release plain_lib plain_args [] sub_buf 0
            plain_scene) = Inl OutOfBounds"
proof -
  have a: "w (words_bigendian d2_release) sub_buf 0 = Some 6"
    by code_simp
  have b: "w (words_bigendian d2_release) sub_buf (0 + 16) = Some 1000"
    by code_simp
  have c: "\<not> in_buffer sub_buf (0 + sint (1000 :: 16 word)) 2"
    by code_simp
  have d: "ndebug d2_release \<or> (0 :: int) + 2 < 1000"
    by simp
  have b': "w False sub_buf 16 = Some 1000"
    by code_simp
  have e: "length sub_buf = 22"
    by code_simp
  show ?thesis
    by (intro conjI b' e subcall_outside_buffer [OF a b c d, THEN conjunct1]
        subcall_outside_buffer [OF a b c d, THEN conjunct2, THEN conjunct1]
        subcall_outside_buffer [OF a b c d, THEN conjunct2, THEN conjunct2])
qed

text \<open>The outcome of the initial scan of that buffer is not the exception.\<close>

theorem subcall_outside_buffer_counterexample:
  "g3_init_polygon_model 3 d2_release plain_lib sub_buf = (Inl OutOfBounds, sub_buf)"
  by code_simp

subsection \<open>A glow index beyond the glow values\<close>

lemma glow_value_beyond:
  "\<not> unat glow_num < length gv \<Longrightarrow> glow_value (Some gv) glow_num = None"
  by (simp add: glow_value_def)

lemma static_light_noglow:
  "glow_value glow_values glow_num = None \<Longrightarrow>
   static_light lib g light glow_values be m q glow_num
     = map_option (\<lambda>l. (l, glow_num)) (get_noglow_light lib g light be m q)"
  by (simp add: static_light_def split: option.splits)

lemma static_op_tmappoly_noglow:
  assumes "glow_value glow_values glow_num = None"
  shows "static_op_tmappoly cfg lib args glow_values m q nv (sc, glow_num)
           = static_op_tmappoly cfg lib args None m q nv (sc, glow_num)"
proof -
  have e: "static_light lib (g3_globals sc) (model_light args) glow_values (words_bigendian cfg) m q
             glow_num
           = static_light lib (g3_globals sc) (model_light args) None (words_bigendian cfg) m q
               glow_num"
    using assms by (simp add: static_light_noglow) (simp add: static_light_noglow glow_value_def)
  show ?thesis unfolding static_op_tmappoly.simps e ..
qed

lemma static_op_tmappoly_drawn:
  assumes "glow_value glow_values glow_num = None"
    and "static_op_tmappoly cfg lib args glow_values m q nv (sc, glow_num) = (Inr (), (sc', g'))"
  shows "sc' = sc \<and> g' = glow_num
     \<or> (\<exists>light point_list uvl_list bm.
          get_noglow_light lib (g3_globals sc) (model_light args) (words_bigendian cfg) m q
            = Some light
          \<and> sc' = sc\<lparr>canvas := canvas sc @
                   [G3_draw_tmap nv point_list uvl_list (replicate nv light) bm]\<rparr>
          \<and> g' = glow_num)"
  using assms(2)
  by (fastforce simp: static_light_noglow [OF assms(1)] Let_def
      split: if_splits option.splits prod.splits)

text \<open>
  C7. When the index that a Glow record sets in \<^verbatim>\<open>g3_draw_polygon_model\<close> is not
  below the number of glow values, there is no glow value in force: a TexturedPolygon
  then behaves as with no glow values at all, and if it draws, every vertex is lit by
  \<^verbatim>\<open>get_noglow_light\<close>, the light from the surface normal. The array of glow values is
  indexed only below its size.
\<close>

theorem glow_index_beyond_table:
  assumes "w (words_bigendian cfg) m (p + 2) = Some i"
    and "\<not> unat (scast i :: 32 word) < length gv"
  shows "static_op_glow cfg m p (sc0, g0) = (Inr (), (sc0, scast i))
     \<and> glow_value (Some gv) (scast i) = None
     \<and> static_op_tmappoly cfg lib args (Some gv) m q nv (sc, scast i)
         = static_op_tmappoly cfg lib args None m q nv (sc, scast i)
     \<and> (\<forall>sc' g'. static_op_tmappoly cfg lib args (Some gv) m q nv (sc, scast i) = (Inr (), (sc', g'))
          \<longrightarrow> sc' = sc \<and> g' = scast i
            \<or> (\<exists>light point_list uvl_list bm.
                 get_noglow_light lib (g3_globals sc) (model_light args) (words_bigendian cfg) m q
                   = Some light
                 \<and> sc' = sc\<lparr>canvas := canvas sc @
                          [G3_draw_tmap nv point_list uvl_list (replicate nv light) bm]\<rparr>
                 \<and> g' = scast i))"
proof -
  have n: "glow_value (Some gv) (scast i) = None"
    using assms(2) by (rule glow_value_beyond)
  have g: "static_op_glow cfg m p (sc0, g0) = (Inr (), (sc0, scast i))"
    using assms(1) by (simp add: static_op_glow_def)
  show ?thesis
    using g n static_op_tmappoly_noglow [OF n] static_op_tmappoly_drawn [OF n]
    by (intro conjI allI impI) assumption+
qed

theorem glow_index_beyond_table_witness:
  "static_op_glow d2_release glow_tmap 0 (plain_scene, - 1) = (Inr (), (plain_scene, 5))
   \<and> length [74565 :: fix_t] \<le> 5
   \<and> get_noglow_light plain_lib () (model_light plain_args) False glow_tmap 4
       = Some (16384, 16384, 16384)
   \<and> static_op_tmappoly d2_release plain_lib plain_args (Some [74565]) glow_tmap 4 3 (plain_scene, 5)
       = (Inr (), (plain_scene\<lparr>canvas :=
            [G3_draw_tmap 3 [0, 0, 0] (replicate 3 (0, 0, 16384))
               (replicate 3 (16384, 16384, 16384)) ()]\<rparr>, 5))"
proof -
  have a: "w (words_bigendian d2_release) glow_tmap (0 + 2) = Some 5"
    by code_simp
  have b: "\<not> unat (scast (5 :: 16 word) :: 32 word) < length [74565 :: fix_t]"
    by code_simp
  have c: "(scast (5 :: 16 word) :: 32 word) = 5"
    by code_simp
  have l: "length [74565 :: fix_t] \<le> 5"
    by simp
  have n: "get_noglow_light plain_lib () (model_light plain_args) False glow_tmap 4
       = Some (16384, 16384, 16384)"
    by code_simp
  have e: "static_op_tmappoly d2_release plain_lib plain_args None glow_tmap 4 3 (plain_scene, 5)
       = (Inr (), (plain_scene\<lparr>canvas :=
            [G3_draw_tmap 3 [0, 0, 0] (replicate 3 (0, 0, 16384))
               (replicate 3 (16384, 16384, 16384)) ()]\<rparr>, 5))"
    by code_simp
  note t = glow_index_beyond_table [OF a b, of plain_scene "- 1" plain_lib plain_args 4 3 plain_scene,
      unfolded c]
  show ?thesis
    by (intro conjI l n t [THEN conjunct1]
        trans [OF t [THEN conjunct2, THEN conjunct2, THEN conjunct1] e])
qed

subsection \<open>The highest texture number\<close>

lemma after_calls_0: "after_calls cfg nest 0 = nest"
  by (simp add: after_calls_def)

lemma after_calls_add: "after_calls cfg (after_calls cfg nest a) b = after_calls cfg nest (a + b)"
  by (simp add: after_calls_def)

lemma agree_refl: "agree C m m"
  by (simp add: agree_def)

lemma agree_empty: "agree {} m m' \<Longrightarrow> m' = m"
  by (auto simp: agree_def intro: nth_equalityI)

lemma w_agree:
  assumes "agree C m m'" and "x \<notin> C" and "x + 1 \<notin> C"
  shows "w be m' x = w be m x"
proof (cases "in_buffer m x 2")
  case True
  then have "nat x < length m" "nat (x + 1) < length m" "int (nat x) = x" "int (nat (x + 1)) = x + 1"
    by (auto simp: in_buffer_def)
  with assms have "m' ! nat x = m ! nat x" "m' ! nat (x + 1) = m ! nat (x + 1)"
    by (auto simp: agree_def)
  with assms(1) show ?thesis
    by (simp add: w_def in_buffer_def byte_at_def agree_def)
next
  case False
  moreover from assms(1) have "in_buffer m' x 2 = in_buffer m x 2"
    by (simp add: in_buffer_def agree_def)
  ultimately show ?thesis
    by (simp add: w_def)
qed

lemma set_w_agree:
  assumes "agree C m m'" and "in_buffer m x 2" and "x \<in> C" and "x + 1 \<in> C"
  shows "\<exists>m''. set_w be m' x v = Some m'' \<and> agree C m m''"
proof -
  from assms(2) have i: "int (nat x) = x" "int (nat (x + 1)) = x + 1"
    by (auto simp: in_buffer_def)
  have "agree C m (m'[nat x := a, nat (x + 1) := b])" for a b
    unfolding agree_def
  proof (intro conjI allI impI)
    show "length (m'[nat x := a, nat (x + 1) := b]) = length m"
      using assms(1) by (simp add: agree_def)
  next
    fix j assume j: "j < length m" "int j \<notin> C"
    with assms(3,4) i have "j \<noteq> nat x" "j \<noteq> nat (x + 1)" by auto
    with assms(1) j show "m'[nat x := a, nat (x + 1) := b] ! j = m ! j"
      by (simp add: agree_def)
  qed
  moreover from assms(1,2) have "in_buffer m' x 2"
    by (simp add: in_buffer_def agree_def)
  ultimately show ?thesis
    by (simp add: set_w_def)
qed

lemma model_at_in_buffer: "model_at be m p rs \<Longrightarrow> in_buffer m p 2"
  by (cases "(be, m, p, rs)" rule: model_at.cases)
     (auto simp: w_def counted_def split: if_splits)

lemma length_less_fuel_needed: "length rs < fuel_needed rs"
  by (induction rs rule: fuel_needed.induct) auto

lemma highest_Cons: "highest h (t # ts) = highest (if sint t > sint h then t else h) ts"
  by (simp add: highest_def)

lemma highest_append: "highest h (a @ b) = highest (highest h a) b"
  by (simp add: highest_def)

lemma highest_Nil: "highest h [] = h"
  by (simp add: highest_def)

lemma init_step:
  assumes "w (words_bigendian cfg) (model_data s) p = Some tg" and "tg \<noteq> 0"
    and "dispatch_polymodel_op (init_model_sub_state cfg lib nested) p s (ucast tg) = (Inr sz, s2)"
  shows "iterate_polymodel (Suc j) (init_model_sub_state cfg lib nested) p s
         = iterate_polymodel j (init_model_sub_state cfg lib nested) (p + int sz) s2"
proof -
  have g: "get_raw_opcode (init_model_sub_state cfg lib nested) p s = Inr tg"
    using assms(1) by (simp add: init_model_sub_state_def read_short_def)
  have u: "(ucast tg :: 32 word) \<noteq> OP_EOF"
    using assms(2) by (simp add: OP_EOF_def ucast_16_32_eq_0)
  have t: "translate_opcode (init_model_sub_state cfg lib nested) p tg s = (Inr (ucast tg), s)"
    by (simp add: init_model_sub_state_def base_translate_opcode_def)
  show ?thesis using g u t assms(3) by simp
qed

lemma init_stop:
  assumes "w (words_bigendian cfg) (model_data s) p = Some 0"
  shows "iterate_polymodel (Suc j) (init_model_sub_state cfg lib nested) p s = (Inr p, s)"
  using assms by (simp add: init_model_sub_state_def read_short_def OP_EOF_def)

lemma init_model_sub_from_loop:
  assumes "iterate_polymodel (Suc k) (init_model_sub_state cfg lib (init_model_sub k cfg lib)) q
             \<lparr>highest_texture_num = h, model_data = m', nest_count = after_calls cfg n 1\<rparr>
           = (Inr q', \<lparr>highest_texture_num = h', model_data = m'', nest_count = n'\<rparr>)"
    and "ndebug cfg \<or> n + 1 < 1000"
  shows "init_model_sub (Suc k) cfg lib q h (m', n) = (Inr h', (m'', n'))"
proof (cases "ndebug cfg")
  case True
  with assms(1) show ?thesis
    by (simp add: Let_def Assert_def after_calls_def del: iterate_polymodel.simps)
next
  case False
  with assms show ?thesis
    by (simp add: Let_def Assert_def after_calls_def del: iterate_polymodel.simps)
qed

lemma init_loop_step:
  assumes "w (words_bigendian cfg) m' p = Some tg" and "tg \<noteq> 0"
    and "dispatch_polymodel_op (init_model_sub_state cfg lib nested) p
           \<lparr>highest_texture_num = h, model_data = m', nest_count = nest\<rparr> (ucast tg)
         = (Inr sz, s1)"
    and "\<exists>q m''. iterate_polymodel j (init_model_sub_state cfg lib nested) (p + int sz) s1
           = (Inr q, \<lparr>highest_texture_num = hf, model_data = m'', nest_count = nf\<rparr>)
         \<and> agree C m m''"
  shows "\<exists>q m''. iterate_polymodel (Suc j) (init_model_sub_state cfg lib nested) p
           \<lparr>highest_texture_num = h, model_data = m', nest_count = nest\<rparr>
           = (Inr q, \<lparr>highest_texture_num = hf, model_data = m'', nest_count = nf\<rparr>)
         \<and> agree C m m''"
proof -
  have "iterate_polymodel (Suc j) (init_model_sub_state cfg lib nested) p
           \<lparr>highest_texture_num = h, model_data = m', nest_count = nest\<rparr>
        = iterate_polymodel j (init_model_sub_state cfg lib nested) (p + int sz) s1"
    by (rule init_step [OF _ assms(2,3)]) (simp add: assms(1))
  with assms(4) show ?thesis by (simp del: iterate_polymodel.simps)
qed

lemma init_dispatch_plain:
  "dispatch_polymodel_op (init_model_sub_state cfg lib nested) p s 5 = (Inr 36, s)"
  "dispatch_polymodel_op (init_model_sub_state cfg lib nested) p s 8 = (Inr 4, s)"
  by (simp_all add: dispatch_polymodel_op_def opcode_defs init_model_sub_state_def
      ignore_op_def returning_def)

lemma init_dispatch_points:
  assumes "w (words_bigendian cfg) (model_data s) (p + 2) = Some c"
  shows "dispatch_polymodel_op (init_model_sub_state cfg lib nested) p s 1
           = (Inr (record_length DefinePoints (unat c)), s)"
    "dispatch_polymodel_op (init_model_sub_state cfg lib nested) p s 7
           = (Inr (record_length DefinePointsWithStart (unat c)), s)"
  using assms
  by (simp_all add: dispatch_polymodel_op_def opcode_defs init_model_sub_state_def
      ignore_op_n_def returning_def read_short_def sizeof_vms_vector_def)

lemma init_dispatch_tmappoly:
  assumes "w (words_bigendian cfg) (model_data s) (p + 2) = Some c"
    and "w (words_bigendian cfg) (model_data s) (p + 28) = Some t"
    and "ndebug cfg \<or> unat c > 2"
  shows "dispatch_polymodel_op (init_model_sub_state cfg lib nested) p s 3
           = (Inr (record_length TexturedPolygon (unat c)),
              if sint t > sint (highest_texture_num s) then s\<lparr>highest_texture_num := t\<rparr> else s)"
  using assms
  by (auto simp: dispatch_polymodel_op_def opcode_defs init_model_sub_state_def
      init_op_tmappoly_def Assert_def returning_def read_short_def round_up_odd_unat)

lemma init_dispatch_flatpoly_d2:
  assumes "w (words_bigendian cfg) (model_data s) (p + 2) = Some c"
    and "ndebug cfg \<or> unat c > 2" and "\<not> build_descent_i cfg"
  shows "dispatch_polymodel_op (init_model_sub_state cfg lib nested) p s 2
           = (Inr (record_length FlatPolygon (unat c)), s)"
  using assms
  by (auto simp: dispatch_polymodel_op_def opcode_defs init_model_sub_state_def
      init_op_flatpoly_def Assert_def returning_def read_short_def round_up_odd_unat)

lemma init_dispatch_flatpoly_d1:
  assumes "w (words_bigendian cfg) (model_data s) (p + 2) = Some c"
    and "ndebug cfg \<or> unat c > 2" and "build_descent_i cfg"
    and "w (words_bigendian cfg) (model_data s) (p + 28) = Some col"
    and "set_w (words_bigendian cfg) (model_data s) (p + 28)
           (word_of_int (gr_find_closest_color_15bpp lib (sint col))) = Some m1"
  shows "dispatch_polymodel_op (init_model_sub_state cfg lib nested) p s 2
           = (Inr (record_length FlatPolygon (unat c)), s\<lparr>model_data := m1\<rparr>)"
  using assms
  by (auto simp: dispatch_polymodel_op_def opcode_defs init_model_sub_state_def
      init_op_flatpoly_def Assert_def returning_def read_short_def round_up_odd_unat)


lemma init_dispatch_sortnorm:
  assumes "w (words_bigendian cfg) (model_data s) (p + 28) = Some o1"
    and "nested (p + sint o1) (highest_texture_num s) (model_data s, nest_count s)
           = (Inr h1, (m1, n1))"
    and "w (words_bigendian cfg) m1 (p + 30) = Some o2"
    and "nested (p + sint o2) h1 (m1, n1) = (Inr h2, (m2, n2))"
  shows "dispatch_polymodel_op (init_model_sub_state cfg lib nested) p s 4
           = (Inr 32, \<lparr>highest_texture_num = h2, model_data = m2, nest_count = n2\<rparr>)"
  using assms
  by (simp add: dispatch_polymodel_op_def opcode_defs init_model_sub_state_def
      init_op_sortnorm_def init_call_def returning_def)

lemma init_dispatch_subcall:
  assumes "w (words_bigendian cfg) (model_data s) (p + 16) = Some o1"
    and "nested (p + sint o1) (highest_texture_num s) (model_data s, nest_count s)
           = (Inr h1, (m1, n1))"
  shows "dispatch_polymodel_op (init_model_sub_state cfg lib nested) p s 6
           = (Inr 20, \<lparr>highest_texture_num = h1, model_data = m1, nest_count = n1\<rparr>)"
  using assms
  by (simp add: dispatch_polymodel_op_def opcode_defs init_model_sub_state_def
      init_op_subcall_def init_call_def returning_def)


lemma init_loop:
  "model_at be m p rs \<Longrightarrow> be = words_bigendian cfg \<Longrightarrow> agree C m m' \<Longrightarrow>
   set (ctrl be m p rs) \<inter> C = {} \<Longrightarrow>
   (build_descent_i cfg \<longrightarrow> set (colours be m p rs) \<subseteq> C) \<Longrightarrow>
   (ndebug cfg \<or> counts_ok rs \<and> nest + int (calls rs) < 1000) \<Longrightarrow>
   length rs < j \<Longrightarrow> fuel_needed rs \<le> Suc k \<Longrightarrow>
   \<exists>q m''. iterate_polymodel j (init_model_sub_state cfg lib (init_model_sub k cfg lib)) p
              \<lparr>highest_texture_num = h, model_data = m', nest_count = nest\<rparr>
            = (Inr q, \<lparr>highest_texture_num = highest h (textures rs), model_data = m'',
                       nest_count = after_calls cfg nest (calls rs)\<rparr>)
          \<and> agree C m m''"
proof (induction be m p rs arbitrary: m' h nest j k rule: model_at.induct)
  case (1 be m p)
  from "1.prems"(7) obtain j' where j: "j = Suc j'" by (cases j) auto
  from "1.prems"(4) have "p \<notin> C" "p + 1 \<notin> C" by auto
  from w_agree [OF "1.prems"(3) this] "1.prems"(1,2)
  have "w (words_bigendian cfg) m' p = Some 0" by simp
  then have "iterate_polymodel (Suc j') (init_model_sub_state cfg lib (init_model_sub k cfg lib)) p
      \<lparr>highest_texture_num = h, model_data = m', nest_count = nest\<rparr>
      = (Inr p, \<lparr>highest_texture_num = h, model_data = m', nest_count = nest\<rparr>)"
    by (intro init_stop) simp
  with "1.prems"(3) show ?case
    unfolding j by (auto simp: highest_Nil after_calls_0 simp del: iterate_polymodel.simps)
next
  case (2 be m p n rs)
  from "2.prems"(7) obtain j' where j: "j = Suc j'" "length rs < j'" by (cases j) auto
  have cs: "build_descent_i cfg \<longrightarrow> set (colours be m (p + int (record_length DefinePoints n)) rs) \<subseteq> C"
    using "2.prems"(5) by auto
  have as: "ndebug cfg \<or> counts_ok rs \<and> nest + int (calls rs) < 1000"
    using "2.prems"(6) by auto
  have fs: "fuel_needed rs \<le> Suc k"
    using "2.prems"(8) by auto
  from "2.prems"(1) obtain c where
    tag: "w be m p = Some 1" and cnt: "w be m (p + 2) = Some c" "unat c = n" and
    rest: "model_at be m (p + int (record_length DefinePoints n)) rs"
    by (auto simp: counted_def)
  from "2.prems"(4) have nc: "p \<notin> C" "p + 1 \<notin> C" "p + 2 \<notin> C" "p + 2 + 1 \<notin> C" and
    rc: "set (ctrl be m (p + int (record_length DefinePoints n)) rs) \<inter> C = {}"
    by (auto simp: add.assoc)
  have tag': "w (words_bigendian cfg) m' p = Some 1"
    using w_agree [OF "2.prems"(3) nc(1,2)] tag "2.prems"(2) by simp
  have cnt': "w (words_bigendian cfg) m' (p + 2) = Some c"
    using w_agree [OF "2.prems"(3) nc(3,4)] cnt "2.prems"(2) by simp
  have d: "dispatch_polymodel_op (init_model_sub_state cfg lib (init_model_sub k cfg lib)) p
      \<lparr>highest_texture_num = h, model_data = m', nest_count = nest\<rparr> (ucast (1 :: 16 word))
      = (Inr (record_length DefinePoints n), \<lparr>highest_texture_num = h, model_data = m', nest_count = nest\<rparr>)"
    using init_dispatch_points(1) [of cfg "\<lparr>highest_texture_num = h, model_data = m', nest_count = nest\<rparr>" p c]
      cnt' cnt(2) by simp
  have rest': "\<exists>q m''. iterate_polymodel j' (init_model_sub_state cfg lib (init_model_sub k cfg lib))
        (p + int (record_length DefinePoints n)) \<lparr>highest_texture_num = h, model_data = m', nest_count = nest\<rparr>
      = (Inr q, \<lparr>highest_texture_num = highest h (textures (Points n # rs)), model_data = m'',
           nest_count = after_calls cfg nest (calls (Points n # rs))\<rparr>)
      \<and> agree C m m''"
    using "2.IH" [OF rest "2.prems"(2,3) rc cs as j(2) fs, of h]
    by simp
  show ?case unfolding j(1) by (rule init_loop_step [OF tag' _ d rest']) simp
next
  case (3 be m p n rs)
  from "3.prems"(7) obtain j' where j: "j = Suc j'" "length rs < j'" by (cases j) auto
  have cs: "build_descent_i cfg \<longrightarrow> set (colours be m (p + int (record_length DefinePointsWithStart n)) rs) \<subseteq> C"
    using "3.prems"(5) by auto
  have as: "ndebug cfg \<or> counts_ok rs \<and> nest + int (calls rs) < 1000"
    using "3.prems"(6) by auto
  have fs: "fuel_needed rs \<le> Suc k"
    using "3.prems"(8) by auto
  from "3.prems"(1) obtain c where
    tag: "w be m p = Some 7" and cnt: "w be m (p + 2) = Some c" "unat c = n" and
    rest: "model_at be m (p + int (record_length DefinePointsWithStart n)) rs"
    by (auto simp: counted_def)
  from "3.prems"(4) have nc: "p \<notin> C" "p + 1 \<notin> C" "p + 2 \<notin> C" "p + 2 + 1 \<notin> C" and
    rc: "set (ctrl be m (p + int (record_length DefinePointsWithStart n)) rs) \<inter> C = {}"
    by (auto simp: add.assoc)
  have tag': "w (words_bigendian cfg) m' p = Some 7"
    using w_agree [OF "3.prems"(3) nc(1,2)] tag "3.prems"(2) by simp
  have cnt': "w (words_bigendian cfg) m' (p + 2) = Some c"
    using w_agree [OF "3.prems"(3) nc(3,4)] cnt "3.prems"(2) by simp
  have d: "dispatch_polymodel_op (init_model_sub_state cfg lib (init_model_sub k cfg lib)) p
      \<lparr>highest_texture_num = h, model_data = m', nest_count = nest\<rparr> (ucast (7 :: 16 word))
      = (Inr (record_length DefinePointsWithStart n), \<lparr>highest_texture_num = h, model_data = m', nest_count = nest\<rparr>)"
    using init_dispatch_points(2) [of cfg "\<lparr>highest_texture_num = h, model_data = m', nest_count = nest\<rparr>" p c]
      cnt' cnt(2) by simp
  have rest': "\<exists>q m''. iterate_polymodel j' (init_model_sub_state cfg lib (init_model_sub k cfg lib))
        (p + int (record_length DefinePointsWithStart n)) \<lparr>highest_texture_num = h, model_data = m', nest_count = nest\<rparr>
      = (Inr q, \<lparr>highest_texture_num = highest h (textures (PointsWithStart n # rs)), model_data = m'',
           nest_count = after_calls cfg nest (calls (PointsWithStart n # rs))\<rparr>)
      \<and> agree C m m''"
    using "3.IH" [OF rest "3.prems"(2,3) rc cs as j(2) fs, of h]
    by simp
  show ?case unfolding j(1) by (rule init_loop_step [OF tag' _ d rest']) simp
next
  case (4 be m p n rs)
  from "4.prems"(7) obtain j' where j: "j = Suc j'" "length rs < j'" by (cases j) auto
  have cs: "build_descent_i cfg \<longrightarrow> set (colours be m (p + int (record_length FlatPolygon n)) rs) \<subseteq> C"
    using "4.prems"(5) by auto
  have as: "ndebug cfg \<or> counts_ok rs \<and> nest + int (calls rs) < 1000"
    using "4.prems"(6) by auto
  have fs: "fuel_needed rs \<le> Suc k"
    using "4.prems"(8) by auto
  from "4.prems"(1) obtain c where
    tag: "w be m p = Some 2" and cnt: "w be m (p + 2) = Some c" "unat c = n" and
    rest: "model_at be m (p + int (record_length FlatPolygon n)) rs"
    by (auto simp: counted_def)
  from "4.prems"(4) have nc: "p \<notin> C" "p + 1 \<notin> C" "p + 2 \<notin> C" "p + 2 + 1 \<notin> C" and
    rc: "set (ctrl be m (p + int (record_length FlatPolygon n)) rs) \<inter> C = {}"
    by (auto simp: add.assoc)
  have tag': "w (words_bigendian cfg) m' p = Some 2"
    using w_agree [OF "4.prems"(3) nc(1,2)] tag "4.prems"(2) by simp
  have cnt': "w (words_bigendian cfg) m' (p + 2) = Some c"
    using w_agree [OF "4.prems"(3) nc(3,4)] cnt "4.prems"(2) by simp
  have a: "ndebug cfg \<or> unat c > 2"
    using "4.prems"(6) cnt(2) by auto
  have "\<exists>m1. dispatch_polymodel_op (init_model_sub_state cfg lib (init_model_sub k cfg lib)) p
      \<lparr>highest_texture_num = h, model_data = m', nest_count = nest\<rparr> (ucast (2 :: 16 word))
      = (Inr (record_length FlatPolygon n),
         \<lparr>highest_texture_num = h, model_data = m1, nest_count = nest\<rparr>)
      \<and> agree C m m1"
  proof (cases "build_descent_i cfg")
    case False
    with init_dispatch_flatpoly_d2 [of cfg "\<lparr>highest_texture_num = h, model_data = m', nest_count = nest\<rparr>" p c lib "init_model_sub k cfg lib"]
      cnt' cnt(2) a "4.prems"(3)
    show ?thesis by auto
  next
    case True
    with "4.prems"(5) have cc: "p + 28 \<in> C" "p + 28 + 1 \<in> C"
      by (auto simp: add.assoc)
    from tag have "0 \<le> p" by (auto simp: w_def in_buffer_def split: if_splits)
    moreover from model_at_in_buffer [OF rest]
    have "p + int (record_length FlatPolygon n) + 2 \<le> int (length m)"
      by (simp add: in_buffer_def)
    ultimately have ib: "in_buffer m (p + 28) 2"
      by (simp add: in_buffer_def)
    with "4.prems"(3) have "in_buffer m' (p + 28) 2"
      by (simp add: in_buffer_def agree_def)
    then obtain col where col: "w (words_bigendian cfg) m' (p + 28) = Some col"
      by (auto simp: w_def)
    from set_w_agree [OF "4.prems"(3) ib cc, of "words_bigendian cfg"
        "word_of_int (gr_find_closest_color_15bpp lib (sint col))"]
    obtain m1 where m1: "set_w (words_bigendian cfg) m' (p + 28)
        (word_of_int (gr_find_closest_color_15bpp lib (sint col))) = Some m1" "agree C m m1"
      by blast
    from init_dispatch_flatpoly_d1 [of cfg "\<lparr>highest_texture_num = h, model_data = m', nest_count = nest\<rparr>" p c col lib m1 "init_model_sub k cfg lib"]
      cnt' cnt(2) a True col m1
    show ?thesis by auto
  qed
  then obtain m1 where
    d: "dispatch_polymodel_op (init_model_sub_state cfg lib (init_model_sub k cfg lib)) p
      \<lparr>highest_texture_num = h, model_data = m', nest_count = nest\<rparr> (ucast (2 :: 16 word))
      = (Inr (record_length FlatPolygon n),
         \<lparr>highest_texture_num = h, model_data = m1, nest_count = nest\<rparr>)" and
    ag1: "agree C m m1"
    by blast
  have rest': "\<exists>q m''. iterate_polymodel j' (init_model_sub_state cfg lib (init_model_sub k cfg lib))
        (p + int (record_length FlatPolygon n))
        \<lparr>highest_texture_num = h, model_data = m1, nest_count = nest\<rparr>
      = (Inr q, \<lparr>highest_texture_num = highest h (textures (FlatPoly n # rs)), model_data = m'',
           nest_count = after_calls cfg nest (calls (FlatPoly n # rs))\<rparr>)
      \<and> agree C m m''"
    using "4.IH" [OF rest "4.prems"(2) ag1 rc cs as j(2) fs, of h]
    by simp
  show ?case unfolding j(1) by (rule init_loop_step [OF tag' _ d rest']) simp
next
  case (5 be m p n t rs)
  from "5.prems"(7) obtain j' where j: "j = Suc j'" "length rs < j'" by (cases j) auto
  have cs: "build_descent_i cfg \<longrightarrow> set (colours be m (p + int (record_length TexturedPolygon n)) rs) \<subseteq> C"
    using "5.prems"(5) by auto
  have as: "ndebug cfg \<or> counts_ok rs \<and> nest + int (calls rs) < 1000"
    using "5.prems"(6) by auto
  have fs: "fuel_needed rs \<le> Suc k"
    using "5.prems"(8) by auto
  from "5.prems"(1) obtain c where
    tag: "w be m p = Some 3" and cnt: "w be m (p + 2) = Some c" "unat c = n" and
    tex: "w be m (p + 28) = Some t" and
    rest: "model_at be m (p + int (record_length TexturedPolygon n)) rs"
    by (auto simp: counted_def)
  from "5.prems"(4) have nc: "p \<notin> C" "p + 1 \<notin> C" "p + 2 \<notin> C" "p + 2 + 1 \<notin> C"
      "p + 28 \<notin> C" "p + 28 + 1 \<notin> C" and
    rc: "set (ctrl be m (p + int (record_length TexturedPolygon n)) rs) \<inter> C = {}"
    by (auto simp: add.assoc)
  have tag': "w (words_bigendian cfg) m' p = Some 3"
    using w_agree [OF "5.prems"(3) nc(1,2)] tag "5.prems"(2) by simp
  have cnt': "w (words_bigendian cfg) m' (p + 2) = Some c"
    using w_agree [OF "5.prems"(3) nc(3,4)] cnt "5.prems"(2) by simp
  have tex': "w (words_bigendian cfg) m' (p + 28) = Some t"
    using w_agree [OF "5.prems"(3) nc(5,6)] tex "5.prems"(2) by simp
  have a: "ndebug cfg \<or> unat c > 2"
    using "5.prems"(6) cnt(2) by auto
  let ?h1 = "if sint t > sint h then t else h"
  have d: "dispatch_polymodel_op (init_model_sub_state cfg lib (init_model_sub k cfg lib)) p
      \<lparr>highest_texture_num = h, model_data = m', nest_count = nest\<rparr> (ucast (3 :: 16 word))
      = (Inr (record_length TexturedPolygon n),
         \<lparr>highest_texture_num = ?h1, model_data = m', nest_count = nest\<rparr>)"
    using init_dispatch_tmappoly [of cfg "\<lparr>highest_texture_num = h, model_data = m', nest_count = nest\<rparr>" p c t lib "init_model_sub k cfg lib"]
      cnt' cnt(2) tex' a by simp
  have rest': "\<exists>q m''. iterate_polymodel j' (init_model_sub_state cfg lib (init_model_sub k cfg lib))
        (p + int (record_length TexturedPolygon n))
        \<lparr>highest_texture_num = ?h1, model_data = m', nest_count = nest\<rparr>
      = (Inr q, \<lparr>highest_texture_num = highest h (textures (TexturedPoly n t # rs)),
           model_data = m'',
           nest_count = after_calls cfg nest (calls (TexturedPoly n t # rs))\<rparr>)
      \<and> agree C m m''"
    using "5.IH" [OF rest "5.prems"(2,3) rc cs as j(2) fs, of ?h1]
    by (simp add: highest_Cons)
  show ?case unfolding j(1) by (rule init_loop_step [OF tag' _ d rest']) simp
next
  case (6 be m p a b rs)
  from "6.prems"(7) obtain j' where j: "j = Suc j'" "length rs < j'" by (cases j) auto
  from "6.prems"(1) obtain o1 o2 where
    tag: "w be m p = Some 4" and o1: "w be m (p + 28) = Some o1" and
    o2: "w be m (p + 30) = Some o2" and
    ma: "model_at be m (p + sint o1) a" and mb: "model_at be m (p + sint o2) b" and
    rest: "model_at be m (p + 32) rs"
    by (auto split: option.splits)
  from "6.prems"(4) o1 o2 have nc: "p \<notin> C" "p + 1 \<notin> C" "p + 28 \<notin> C" "p + 28 + 1 \<notin> C"
      "p + 30 \<notin> C" "p + 30 + 1 \<notin> C" and
    ac: "set (ctrl be m (p + sint o1) a) \<inter> C = {}" and
    bc: "set (ctrl be m (p + sint o2) b) \<inter> C = {}" and
    rc: "set (ctrl be m (p + 32) rs) \<inter> C = {}"
    by (auto simp: add.assoc)
  from "6.prems"(5) o1 o2 have
    csa: "build_descent_i cfg \<longrightarrow> set (colours be m (p + sint o1) a) \<subseteq> C" and
    csb: "build_descent_i cfg \<longrightarrow> set (colours be m (p + sint o2) b) \<subseteq> C" and
    cs: "build_descent_i cfg \<longrightarrow> set (colours be m (p + 32) rs) \<subseteq> C"
    by auto
  from "6.prems"(8) have fa: "fuel_needed a \<le> k" and fb: "fuel_needed b \<le> k" and
    fs: "fuel_needed rs \<le> Suc k"
    by auto
  from fa fb length_less_fuel_needed [of a] length_less_fuel_needed [of b]
  obtain k' where k: "k = Suc k'" "length a < Suc k'" "fuel_needed a \<le> Suc k'"
    "length b < Suc k'" "fuel_needed b \<le> Suc k'"
    by (cases k) auto
  let ?n1 = "after_calls cfg nest 1"
  let ?na = "after_calls cfg ?n1 (calls a)"
  let ?n2 = "after_calls cfg ?na 1"
  let ?nb = "after_calls cfg ?n2 (calls b)"
  let ?ha = "highest h (textures a)"
  let ?hb = "highest ?ha (textures b)"
  have asa: "ndebug cfg \<or> counts_ok a \<and> ?n1 + int (calls a) < 1000"
    using "6.prems"(6) by (auto simp: after_calls_def)
  have asb: "ndebug cfg \<or> counts_ok b \<and> ?n2 + int (calls b) < 1000"
    using "6.prems"(6) by (auto simp: after_calls_def)
  have as: "ndebug cfg \<or> counts_ok rs \<and> ?nb + int (calls rs) < 1000"
    using "6.prems"(6) by (auto simp: after_calls_def)
  have a1: "ndebug cfg \<or> nest + 1 < 1000"
    using "6.prems"(6) by auto
  have a2: "ndebug cfg \<or> ?na + 1 < 1000"
    using "6.prems"(6) by (auto simp: after_calls_def)
  have tag': "w (words_bigendian cfg) m' p = Some 4"
    using w_agree [OF "6.prems"(3) nc(1,2)] tag "6.prems"(2) by simp
  have o1': "w (words_bigendian cfg) m' (p + 28) = Some o1"
    using w_agree [OF "6.prems"(3) nc(3,4)] o1 "6.prems"(2) by simp
  from "6.IH"(1) [OF o1 ma "6.prems"(2,3) ac csa asa k(2,3), of h] obtain qa m1 where
    la: "iterate_polymodel (Suc k') (init_model_sub_state cfg lib (init_model_sub k' cfg lib))
           (p + sint o1) \<lparr>highest_texture_num = h, model_data = m', nest_count = ?n1\<rparr>
         = (Inr qa, \<lparr>highest_texture_num = ?ha, model_data = m1, nest_count = ?na\<rparr>)" and
    ag1: "agree C m m1"
    by blast
  have call1: "init_model_sub k cfg lib (p + sint o1) h (m', nest) = (Inr ?ha, (m1, ?na))"
    unfolding k(1) using la a1 by (rule init_model_sub_from_loop)
  have o2': "w (words_bigendian cfg) m1 (p + 30) = Some o2"
    using w_agree [OF ag1 nc(5,6)] o2 "6.prems"(2) by simp
  from "6.IH"(2) [OF o2 mb "6.prems"(2) ag1 bc csb asb k(4,5), of ?ha] obtain qb m2 where
    lb: "iterate_polymodel (Suc k') (init_model_sub_state cfg lib (init_model_sub k' cfg lib))
           (p + sint o2) \<lparr>highest_texture_num = ?ha, model_data = m1, nest_count = ?n2\<rparr>
         = (Inr qb, \<lparr>highest_texture_num = ?hb, model_data = m2, nest_count = ?nb\<rparr>)" and
    ag2: "agree C m m2"
    by blast
  have call2: "init_model_sub k cfg lib (p + sint o2) ?ha (m1, ?na) = (Inr ?hb, (m2, ?nb))"
    unfolding k(1) using lb a2 by (rule init_model_sub_from_loop)
  have d: "dispatch_polymodel_op (init_model_sub_state cfg lib (init_model_sub k cfg lib)) p
      \<lparr>highest_texture_num = h, model_data = m', nest_count = nest\<rparr> (ucast (4 :: 16 word))
      = (Inr 32, \<lparr>highest_texture_num = ?hb, model_data = m2, nest_count = ?nb\<rparr>)"
    using init_dispatch_sortnorm [of cfg
        "\<lparr>highest_texture_num = h, model_data = m', nest_count = nest\<rparr>" p o1
        "init_model_sub k cfg lib" ?ha m1 ?na o2 ?hb m2 ?nb lib] o1' call1 o2' call2
    by simp
  have rest': "\<exists>q m''. iterate_polymodel j' (init_model_sub_state cfg lib (init_model_sub k cfg lib))
        (p + int 32) \<lparr>highest_texture_num = ?hb, model_data = m2, nest_count = ?nb\<rparr>
      = (Inr q, \<lparr>highest_texture_num = highest h (textures (SortNode a b # rs)), model_data = m'',
           nest_count = after_calls cfg nest (calls (SortNode a b # rs))\<rparr>)
      \<and> agree C m m''"
    using "6.IH"(3) [OF rest "6.prems"(2) ag2 rc cs as j(2) fs, of ?hb]
    by (simp add: highest_append after_calls_add add.assoc)
  show ?case unfolding j(1) by (rule init_loop_step [OF tag' _ d rest']) simp
next
  case (7 be m p rs)
  from "7.prems"(7) obtain j' where j: "j = Suc j'" "length rs < j'" by (cases j) auto
  have cs: "build_descent_i cfg \<longrightarrow> set (colours be m (p + 36) rs) \<subseteq> C"
    using "7.prems"(5) by auto
  have as: "ndebug cfg \<or> counts_ok rs \<and> nest + int (calls rs) < 1000"
    using "7.prems"(6) by auto
  have fs: "fuel_needed rs \<le> Suc k"
    using "7.prems"(8) by auto
  from "7.prems"(1) have
    tag: "w be m p = Some 5" and rest: "model_at be m (p + 36) rs"
    by auto
  from "7.prems"(4) have nc: "p \<notin> C" "p + 1 \<notin> C" and
    rc: "set (ctrl be m (p + 36) rs) \<inter> C = {}"
    by auto
  have tag': "w (words_bigendian cfg) m' p = Some 5"
    using w_agree [OF "7.prems"(3) nc(1,2)] tag "7.prems"(2) by simp
  have d: "dispatch_polymodel_op (init_model_sub_state cfg lib (init_model_sub k cfg lib)) p
      \<lparr>highest_texture_num = h, model_data = m', nest_count = nest\<rparr> (ucast (5 :: 16 word))
      = (Inr 36, \<lparr>highest_texture_num = h, model_data = m', nest_count = nest\<rparr>)"
    using init_dispatch_plain(1) [of cfg lib "init_model_sub k cfg lib" p "\<lparr>highest_texture_num = h, model_data = m', nest_count = nest\<rparr>"]
    by simp
  have rest': "\<exists>q m''. iterate_polymodel j' (init_model_sub_state cfg lib (init_model_sub k cfg lib))
        (p + int 36) \<lparr>highest_texture_num = h, model_data = m', nest_count = nest\<rparr>
      = (Inr q, \<lparr>highest_texture_num = highest h (textures (Rod # rs)), model_data = m'',
           nest_count = after_calls cfg nest (calls (Rod # rs))\<rparr>)
      \<and> agree C m m''"
    using "7.IH" [OF rest "7.prems"(2,3) rc cs as j(2) fs, of h]
    by simp
  show ?case unfolding j(1) by (rule init_loop_step [OF tag' _ d rest']) simp
next
  case (8 be m p a rs)
  from "8.prems"(7) obtain j' where j: "j = Suc j'" "length rs < j'" by (cases j) auto
  from "8.prems"(1) obtain off where
    tag: "w be m p = Some 6" and off: "w be m (p + 16) = Some off" and
    ma: "model_at be m (p + sint off) a" and rest: "model_at be m (p + 20) rs"
    by (auto split: option.splits)
  from "8.prems"(4) off have nc: "p \<notin> C" "p + 1 \<notin> C" "p + 16 \<notin> C" "p + 16 + 1 \<notin> C" and
    ac: "set (ctrl be m (p + sint off) a) \<inter> C = {}" and
    rc: "set (ctrl be m (p + 20) rs) \<inter> C = {}"
    by (auto simp: add.assoc)
  from "8.prems"(5) off have
    csa: "build_descent_i cfg \<longrightarrow> set (colours be m (p + sint off) a) \<subseteq> C" and
    cs: "build_descent_i cfg \<longrightarrow> set (colours be m (p + 20) rs) \<subseteq> C"
    by auto
  from "8.prems"(8) have fa: "fuel_needed a \<le> k" and fs: "fuel_needed rs \<le> Suc k"
    by auto
  from fa length_less_fuel_needed [of a] obtain k' where k: "k = Suc k'" "length a < Suc k'"
    "fuel_needed a \<le> Suc k'"
    by (cases k) auto
  let ?n1 = "after_calls cfg nest 1"
  let ?na = "after_calls cfg ?n1 (calls a)"
  let ?ha = "highest h (textures a)"
  have asa: "ndebug cfg \<or> counts_ok a \<and> ?n1 + int (calls a) < 1000"
    using "8.prems"(6) by (auto simp: after_calls_def)
  have as: "ndebug cfg \<or> counts_ok rs \<and> ?na + int (calls rs) < 1000"
    using "8.prems"(6) by (auto simp: after_calls_def)
  have a1: "ndebug cfg \<or> nest + 1 < 1000"
    using "8.prems"(6) by auto
  have tag': "w (words_bigendian cfg) m' p = Some 6"
    using w_agree [OF "8.prems"(3) nc(1,2)] tag "8.prems"(2) by simp
  have off': "w (words_bigendian cfg) m' (p + 16) = Some off"
    using w_agree [OF "8.prems"(3) nc(3,4)] off "8.prems"(2) by simp
  from "8.IH"(1) [OF off ma "8.prems"(2,3) ac csa asa k(2,3), of h] obtain qa m1 where
    la: "iterate_polymodel (Suc k') (init_model_sub_state cfg lib (init_model_sub k' cfg lib))
           (p + sint off) \<lparr>highest_texture_num = h, model_data = m', nest_count = ?n1\<rparr>
         = (Inr qa, \<lparr>highest_texture_num = ?ha, model_data = m1, nest_count = ?na\<rparr>)" and
    ag1: "agree C m m1"
    by blast
  have call: "init_model_sub k cfg lib (p + sint off) h (m', nest) = (Inr ?ha, (m1, ?na))"
    unfolding k(1) using la a1 by (rule init_model_sub_from_loop)
  have d: "dispatch_polymodel_op (init_model_sub_state cfg lib (init_model_sub k cfg lib)) p
      \<lparr>highest_texture_num = h, model_data = m', nest_count = nest\<rparr> (ucast (6 :: 16 word))
      = (Inr 20, \<lparr>highest_texture_num = ?ha, model_data = m1, nest_count = ?na\<rparr>)"
    using init_dispatch_subcall [of cfg
        "\<lparr>highest_texture_num = h, model_data = m', nest_count = nest\<rparr>" p off
        "init_model_sub k cfg lib" ?ha m1 ?na lib] off' call
    by simp
  have rest': "\<exists>q m''. iterate_polymodel j' (init_model_sub_state cfg lib (init_model_sub k cfg lib))
        (p + int 20) \<lparr>highest_texture_num = ?ha, model_data = m1, nest_count = ?na\<rparr>
      = (Inr q, \<lparr>highest_texture_num = highest h (textures (SubModel a # rs)), model_data = m'',
           nest_count = after_calls cfg nest (calls (SubModel a # rs))\<rparr>)
      \<and> agree C m m''"
    using "8.IH"(2) [OF rest "8.prems"(2) ag1 rc cs as j(2) fs, of ?ha]
    by (simp add: highest_append after_calls_add add.assoc)
  show ?case unfolding j(1) by (rule init_loop_step [OF tag' _ d rest']) simp
next
  case (9 be m p rs)
  from "9.prems"(7) obtain j' where j: "j = Suc j'" "length rs < j'" by (cases j) auto
  have cs: "build_descent_i cfg \<longrightarrow> set (colours be m (p + 4) rs) \<subseteq> C"
    using "9.prems"(5) by auto
  have as: "ndebug cfg \<or> counts_ok rs \<and> nest + int (calls rs) < 1000"
    using "9.prems"(6) by auto
  have fs: "fuel_needed rs \<le> Suc k"
    using "9.prems"(8) by auto
  from "9.prems"(1) have
    tag: "w be m p = Some 8" and rest: "model_at be m (p + 4) rs"
    by auto
  from "9.prems"(4) have nc: "p \<notin> C" "p + 1 \<notin> C" and
    rc: "set (ctrl be m (p + 4) rs) \<inter> C = {}"
    by auto
  have tag': "w (words_bigendian cfg) m' p = Some 8"
    using w_agree [OF "9.prems"(3) nc(1,2)] tag "9.prems"(2) by simp
  have d: "dispatch_polymodel_op (init_model_sub_state cfg lib (init_model_sub k cfg lib)) p
      \<lparr>highest_texture_num = h, model_data = m', nest_count = nest\<rparr> (ucast (8 :: 16 word))
      = (Inr 4, \<lparr>highest_texture_num = h, model_data = m', nest_count = nest\<rparr>)"
    using init_dispatch_plain(2) [of cfg lib "init_model_sub k cfg lib" p "\<lparr>highest_texture_num = h, model_data = m', nest_count = nest\<rparr>"]
    by simp
  have rest': "\<exists>q m''. iterate_polymodel j' (init_model_sub_state cfg lib (init_model_sub k cfg lib))
        (p + int 4) \<lparr>highest_texture_num = h, model_data = m', nest_count = nest\<rparr>
      = (Inr q, \<lparr>highest_texture_num = highest h (textures (GlowIndex # rs)), model_data = m'',
           nest_count = after_calls cfg nest (calls (GlowIndex # rs))\<rparr>)
      \<and> agree C m m''"
    using "9.IH" [OF rest "9.prems"(2,3) rc cs as j(2) fs, of h]
    by simp
  show ?case unfolding j(1) by (rule init_loop_step [OF tag' _ d rest']) simp
qed


lemma sint_highest: "sint (highest h ts) = Max (insert (sint h) (sint ` set ts))"
proof (induction ts arbitrary: h)
  case Nil
  show ?case by (simp add: highest_Nil)
next
  case (Cons t ts)
  have "Max (insert (sint h) (sint ` set (t # ts)))
      = Max (insert (max (sint h) (sint t)) (sint ` set ts))"
  proof (cases "ts = []")
    case True
    then show ?thesis by (simp add: max.commute)
  next
    case False
    then have ne: "sint ` set ts \<noteq> {}" by simp
    have "Max (insert (sint h) (insert (sint t) (sint ` set ts)))
        = max (sint h) (max (sint t) (Max (sint ` set ts)))"
      using ne by simp
    also have "\<dots> = Max (insert (max (sint h) (sint t)) (sint ` set ts))"
      using ne by (simp add: max.assoc)
    finally show ?thesis by simp
  qed
  moreover have "sint (if sint t > sint h then t else h) = max (sint h) (sint t)"
    by (simp add: max_def)
  ultimately show ?case
    by (simp only: highest_Cons Cons.IH)
qed

lemma colours_apart_disjoint:
  "colours_apart be m p t \<Longrightarrow> set (ctrl be m p t) \<inter> set (colours be m p t) = {}"
  by (auto simp: colours_apart_def list_all_iff)

lemma init_polygon_model_highest:
  assumes "model_at (words_bigendian cfg) m 0 t"
    and "build_descent_i cfg \<longrightarrow> colours_apart (words_bigendian cfg) m 0 t"
    and "ndebug cfg \<or> counts_ok t \<and> calls t < 999"
    and "fuel_needed t \<le> fuel"
  shows "\<exists>m'. g3_init_polygon_model fuel cfg lib m = (Inr (highest (- 1) (textures t)), m')
            \<and> (\<not> build_descent_i cfg \<longrightarrow> m' = m)"
proof -
  let ?be = "words_bigendian cfg"
  let ?C = "if build_descent_i cfg then set (colours ?be m 0 t) else {}"
  from assms(4) length_less_fuel_needed [of t] obtain k where
    k: "fuel = Suc k" "length t < Suc k" "fuel_needed t \<le> Suc k"
    by (cases fuel) auto
  have c: "set (ctrl ?be m 0 t) \<inter> ?C = {}"
    using assms(2) colours_apart_disjoint [of ?be m 0 t] by auto
  have cs: "build_descent_i cfg \<longrightarrow> set (colours ?be m 0 t) \<subseteq> ?C"
    by simp
  have as: "ndebug cfg \<or> counts_ok t \<and> after_calls cfg 0 1 + int (calls t) < 1000"
    using assms(3) by (auto simp: after_calls_def)
  from init_loop [OF assms(1) refl agree_refl c cs as k(2,3), of lib "- 1"] obtain q m' where
    l: "iterate_polymodel (Suc k) (init_model_sub_state cfg lib (init_model_sub k cfg lib)) 0
          \<lparr>highest_texture_num = - 1, model_data = m, nest_count = after_calls cfg 0 1\<rparr>
        = (Inr q, \<lparr>highest_texture_num = highest (- 1) (textures t), model_data = m',
             nest_count = after_calls cfg (after_calls cfg 0 1) (calls t)\<rparr>)" and
    ag: "agree ?C m m'"
    by blast
  have "ndebug cfg \<or> (0 :: int) + 1 < 1000" by simp
  with l have "init_model_sub (Suc k) cfg lib 0 (- 1) (m, 0)
      = (Inr (highest (- 1) (textures t)), (m', after_calls cfg (after_calls cfg 0 1) (calls t)))"
    by (rule init_model_sub_from_loop)
  then have "g3_init_polygon_model fuel cfg lib m = (Inr (highest (- 1) (textures t)), m')"
    unfolding g3_init_polygon_model_def k(1) by (simp del: init_model_sub.simps)
  moreover have "\<not> build_descent_i cfg \<longrightarrow> m' = m"
    using ag agree_empty [of m m'] by auto
  ultimately show ?thesis by blast
qed

text \<open>
  C8. Let the buffer hold a model hierarchy \<open>t\<close> at its start: records one behind the
  other up to the tag EndOfStream, the branches of every SortByNormal record and the
  sub-model of every SubmodelCall record hierarchies again, at the offsets the records
  give. Then \<^verbatim>\<open>g3_init_polygon_model\<close> returns, and what it returns is the greatest of
  -1, the number it starts from, and the texture numbers of all TexturedPolygon records of
  the hierarchy, those of both branches of the SortByNormal records and of the sub-models
  included. So when some record has a texture number that is not negative, the returned
  number is the maximum of the texture numbers. The build for Descent 2 leaves the buffer
  as it was. The hypotheses: in a build with the assertions every polygon has more
  than two points and there are fewer than 999 nested calls; in the build for Descent 1,
  which writes colours into the FlatPolygon records, no colour lies on an opcode, a count,
  a texture number or an offset of the hierarchy.
\<close>

theorem init_scan_highest_texture:
  assumes "model_at (words_bigendian cfg) m 0 t"
    and "build_descent_i cfg \<longrightarrow> colours_apart (words_bigendian cfg) m 0 t"
    and "ndebug cfg \<or> counts_ok t \<and> calls t < 999"
    and "fuel_needed t \<le> fuel"
  shows "\<exists>r m'. g3_init_polygon_model fuel cfg lib m = (Inr r, m')
            \<and> sint r = Max (insert (- 1) (sint ` set (textures t)))
            \<and> ((\<exists>x \<in> set (textures t). 0 \<le> sint x) \<longrightarrow> sint r = Max (sint ` set (textures t)))
            \<and> (\<not> build_descent_i cfg \<longrightarrow> m' = m)"
proof -
  from init_polygon_model_highest [OF assms, of lib] obtain m' where
    r: "g3_init_polygon_model fuel cfg lib m = (Inr (highest (- 1) (textures t)), m')" and
    m: "\<not> build_descent_i cfg \<longrightarrow> m' = m"
    by blast
  let ?S = "sint ` set (textures t)"
  have s: "sint (highest (- 1) (textures t)) = Max (insert (- 1) ?S)"
    by (simp add: sint_highest)
  have "(\<exists>x \<in> set (textures t). 0 \<le> sint x) \<longrightarrow> Max (insert (- 1) ?S) = Max ?S"
  proof
    assume "\<exists>x \<in> set (textures t). 0 \<le> sint x"
    then obtain x where x: "x \<in> set (textures t)" "0 \<le> sint x" by blast
    from x(1) have i: "sint x \<in> ?S" by (rule imageI)
    have f: "finite ?S" by simp
    from f i have "sint x \<le> Max ?S" by (rule Max_ge)
    with x(2) have "- 1 \<le> Max ?S" by linarith
    moreover from x(1) have "?S \<noteq> {}" by auto
    ultimately
    show "Max (insert (- 1) ?S) = Max ?S"
      using f by (simp add: max_def)
  qed
  with r m s show ?thesis by auto
qed

theorem init_scan_highest_texture_witness:
  "model_at (words_bigendian d2_debug) tex_model 0 tex_tree
   \<and> \<not> build_descent_i d2_debug \<and> \<not> ndebug d2_debug
   \<and> counts_ok tex_tree \<and> calls tex_tree < 999
   \<and> fuel_needed tex_tree \<le> 4
   \<and> textures tex_tree = [3, 7, 1]
   \<and> g3_init_polygon_model 4 d2_debug plain_lib tex_model = (Inr 7, tex_model)"
proof -
  have 1: "model_at (words_bigendian d2_debug) tex_model 0 tex_tree" by code_simp
  have 2: "build_descent_i d2_debug \<longrightarrow> colours_apart (words_bigendian d2_debug) tex_model 0 tex_tree"
    by (simp add: d2_debug_def)
  have 3: "ndebug d2_debug \<or> counts_ok tex_tree \<and> calls tex_tree < 999"
    by (simp add: tex_tree_def)
  have 4: "fuel_needed tex_tree \<le> 4" by (simp add: tex_tree_def)
  have 5: "textures tex_tree = [3, 7, 1]" by (simp add: tex_tree_def)
  have 6: "\<not> build_descent_i d2_debug" "\<not> ndebug d2_debug" by (simp_all add: d2_debug_def)
  have 7: "counts_ok tex_tree \<and> calls tex_tree < 999" by (simp add: tex_tree_def)
  from init_scan_highest_texture [OF 1 2 3 4, of plain_lib] obtain r m' where
    r: "g3_init_polygon_model 4 d2_debug plain_lib tex_model = (Inr r, m')" and
    s: "sint r = Max (insert (- 1) (sint ` set (textures tex_tree)))" and
    m: "\<not> build_descent_i d2_debug \<longrightarrow> m' = tex_model"
    by blast
  from s have "sint r = sint (7 :: 16 word)" unfolding 5 by simp
  then have "r = 7" by (rule signed_word_eqI)
  with r m 6 7 1 4 5 show ?thesis by simp
qed

subsection \<open>A second run of swap_polygon_model_data\<close>












end
